theory Spec2Isabelle
  imports Main "HOL-Library.Log_Nat" "HOL-Library.Sublist" "HOL-Library.AList"
begin

section \<open>Python values shared by both servers\<close>

text \<open>
  Every \<^verbatim>\<open>raise\<close> of the sources is a value of \<open>py_error\<close>; a function that can raise
  returns \<open>py_error + 'a\<close> with \<open>Inl\<close> for the exception. The \<open>ValueError\<close>s of the
  sources are told apart by a tag naming the \<^verbatim>\<open>raise\<close> statement they come from.
\<close>

datatype value_error =
    OnlyOneOnnx            \<comment> \<open>"Artifacts directory must contain only one onnx file."\<close>
  | BadModelPath           \<comment> \<open>"model_path must be path to onnx file or artifacts directory"\<close>
  | UnknownTensorType      \<comment> \<open>"Got unknown tensor type ..."\<close>
  | OutputDirNotDirectory  \<comment> \<open>"output_dir_path (...) must be path to a directory"\<close>
  | OutputDirExists        \<comment> \<open>"output directory (...) already exists"\<close>
  | CalibrationDirNotFound \<comment> \<open>"directory with calibration data is not found (...)"\<close>
  | NoCalibrationInput     \<comment> \<open>"cannot find any calibration input ('*.pickle')"\<close>
  | CalibrationNotZip      \<comment> \<open>"Calibration data must be a zip file"\<close>
  | NegativeDimensions     \<comment> \<open>numpy: "negative dimensions are not allowed"\<close>
  | ToolsPathNotSet        \<comment> \<open>"tidl_tools_path must be set manually by user ..."\<close>
  | MaxNumSubgraphsRange   \<comment> \<open>"max_num_subgraphs must be in the range (0, 16]"\<close>

datatype py_error =
    KeyError string
  | ValueError value_error
  | FileExistsError
  | FileNotFoundError
  | NotADirectoryError
  | IsADirectoryError
  | UnpicklingError
  | IndexError
  | ZeroDivisionError
  | OverflowError
  | TypeError
  | RuntimeError string    \<comment> \<open>"Compiler provider is not available."\<close>
  | LibraryError string    \<comment> \<open>an exception raised inside onnx, onnxruntime or the TIDL tools\<close>
  | HTTPInternalServerError py_error

section \<open>Python floats\<close>

text \<open>
  A Python \<^verbatim>\<open>float\<close> is an IEEE 754 binary64 number. A finite one is modelled by the
  rational it denotes, and each float operation is the exact operation followed by
  rounding to the nearest number with a 53 bit significand, ties to even. The exponent
  range is not bounded: overflow to infinity and the subnormal range do not occur for
  nanosecond counters divided by \<open>10^6\<close>.
\<close>

definition fexp :: "rat \<Rightarrow> int" where
  \<comment> \<open>the binary exponent \<open>\<lfloor>log\<^sub>2 \<bar>x\<bar>\<rfloor>\<close> of a non-zero rational\<close>
  "fexp x = (let (p, q) = quotient_of \<bar>x\<bar>; d = bitlen p - bitlen q
             in if 2 powi d \<le> \<bar>x\<bar> then d else d - 1)"

definition round_half_even :: "rat \<Rightarrow> int" where
  "round_half_even y = (let f = \<lfloor>y\<rfloor>; r = y - of_int f
     in if r < 1 / 2 then f else if 1 / 2 < r then f + 1 else if even f then f else f + 1)"

definition round_double :: "rat \<Rightarrow> rat" where
  "round_double x = (if x = 0 then 0
     else let ulp = 2 powi (fexp x - 52) in of_int (round_half_even (x / ulp)) * ulp)"

definition fadd :: "rat \<Rightarrow> rat \<Rightarrow> rat" where
  "fadd a b = round_double (a + b)"

definition fsub :: "rat \<Rightarrow> rat \<Rightarrow> rat" where
  "fsub a b = round_double (a - b)"

definition fdiv :: "rat \<Rightarrow> rat \<Rightarrow> rat" where
  "fdiv a b = round_double (a / b)"

definition float_of_int :: "int \<Rightarrow> rat" where
  \<comment> \<open>the conversion of the \<^verbatim>\<open>int\<close> operand of a mixed \<^verbatim>\<open>float + int\<close>\<close>
  "float_of_int n = round_double (of_int n)"

definition int_truediv :: "int \<Rightarrow> int \<Rightarrow> rat" where
  \<comment> \<open>\<^verbatim>\<open>int / int\<close>: the exact quotient, rounded once\<close>
  "int_truediv a b = round_double (of_int a / of_int b)"

definition fsum :: "int list \<Rightarrow> rat" where
  \<comment> \<open>what \<^verbatim>\<open>acc = 0.0; for d in ds: acc += d\<close> leaves in \<^verbatim>\<open>acc\<close>\<close>
  "fsum ds = foldl (\<lambda>acc d. fadd acc (float_of_int d)) 0 ds"

section \<open>Statistics aggregation (ti\_ort\_model.py, collect\_ti\_stats)\<close>

text \<open>
  \<^verbatim>\<open>get_TI_benchmark_data()\<close> returns a dict from counter names to integer timestamps in
  nanoseconds. A dict iterates in insertion order, so it is an association list; a
  lookup \<^verbatim>\<open>raw_stats[k]\<close> of a missing key raises \<^verbatim>\<open>KeyError\<close>.
\<close>

type_synonym raw_stats = "(string \<times> int) list"

definition getitem :: "raw_stats \<Rightarrow> string \<Rightarrow> py_error + int" where
  "getitem raw k = (case map_of raw k of None \<Rightarrow> Inl (KeyError k) | Some v \<Rightarrow> Inr v)"

definition window :: "raw_stats \<Rightarrow> string \<Rightarrow> string \<Rightarrow> py_error + int" where
  \<comment> \<open>\<^verbatim>\<open>raw_stats[e] - raw_stats[s]\<close>, the left operand looked up first\<close>
  "window raw e s =
     (case getitem raw e of Inl err \<Rightarrow> Inl err
      | Inr ve \<Rightarrow> (case getitem raw s of Inl err \<Rightarrow> Inl err | Inr vs \<Rightarrow> Inr (ve - vs)))"

definition endswith :: "string \<Rightarrow> string \<Rightarrow> bool" where
  \<comment> \<open>\<^verbatim>\<open>k.endswith(s)\<close>\<close>
  "endswith k s = (length s \<le> length k \<and> drop (length k - length s) k = s)"

definition slice_12_m11 :: "string \<Rightarrow> string" where
  \<comment> \<open>\<^verbatim>\<open>k[12:-11]\<close>: the stop index \<open>len - 11\<close> is clamped at 0\<close>
  "slice_12_m11 k = drop 12 (take (length k - 11) k)"

definition subgraph_ids :: "raw_stats \<Rightarrow> string list" where
  \<comment> \<open>\<^verbatim>\<open>tuple(k[12:-11] for k in raw_stats if k.endswith("proc_start"))\<close>\<close>
  "subgraph_ids raw = map slice_12_m11 (filter (\<lambda>k. endswith k ''proc_start'') (map fst raw))"

text \<open>
  The dict \<^verbatim>\<open>stats\<close> has a fixed, literal key set, so it is a record whose fields are the
  keys. Before the conversion to milliseconds the three run windows are \<^verbatim>\<open>int\<close>s and the
  three accumulators are \<^verbatim>\<open>float\<close>s (they start as \<^verbatim>\<open>0.0\<close>).
\<close>

record ns_stats =
  total_ns :: int
  ddr_read_ns :: int
  ddr_write_ns :: int
  NPU_execution_acc :: rat
  NPU_copy_input_acc :: rat
  NPU_copy_output_acc :: rat

record ti_stats =
  total_ms :: rat
  ddr_read_ms :: rat
  ddr_write_ms :: rat
  NPU_execution_ms :: rat
  NPU_copy_input_ms :: rat
  NPU_copy_output_ms :: rat
  total_execution_ms :: rat
  CPU_execution_ms :: rat

definition sg_key :: "string \<Rightarrow> string \<Rightarrow> string" where
  \<comment> \<open>\<^verbatim>\<open>f"{prefix}_proc_end"\<close> with \<^verbatim>\<open>prefix = f"ts:subgraph_{subgraph_id}"\<close>\<close>
  "sg_key sid ending = ''ts:subgraph_'' @ sid @ ending"

fun accumulate :: "raw_stats \<Rightarrow> string list \<Rightarrow> ns_stats \<Rightarrow> py_error + ns_stats" where
  "accumulate raw [] st = Inr st"
| "accumulate raw (sid # sids) st =
     (case window raw (sg_key sid ''_proc_end'') (sg_key sid ''_proc_start'') of
        Inl err \<Rightarrow> Inl err
      | Inr d_proc \<Rightarrow>
     (case window raw (sg_key sid ''_copy_in_end'') (sg_key sid ''_copy_in_start'') of
        Inl err \<Rightarrow> Inl err
      | Inr d_in \<Rightarrow>
     (case window raw (sg_key sid ''_copy_out_end'') (sg_key sid ''_copy_out_start'') of
        Inl err \<Rightarrow> Inl err
      | Inr d_out \<Rightarrow>
          accumulate raw sids
            (st\<lparr>NPU_execution_acc := fadd (NPU_execution_acc st) (float_of_int d_proc),
                NPU_copy_input_acc := fadd (NPU_copy_input_acc st) (float_of_int d_in),
                NPU_copy_output_acc := fadd (NPU_copy_output_acc st) (float_of_int d_out)\<rparr>))))"

definition to_ms :: "ns_stats \<Rightarrow> ti_stats" where
  \<comment> \<open>\<^verbatim>\<open>{k: v / 10**6 for k, v in stats.items()}\<close>, then the two derived entries\<close>
  "to_ms st =
     (let t = int_truediv (total_ns st) (10 ^ 6);
          r = int_truediv (ddr_read_ns st) (10 ^ 6);
          w = int_truediv (ddr_write_ns st) (10 ^ 6);
          n = fdiv (NPU_execution_acc st) (10 ^ 6);
          ci = fdiv (NPU_copy_input_acc st) (10 ^ 6);
          co = fdiv (NPU_copy_output_acc st) (10 ^ 6);
          te = fsub (fsub t ci) co
      in \<lparr>total_ms = t, ddr_read_ms = r, ddr_write_ms = w,
          NPU_execution_ms = n, NPU_copy_input_ms = ci, NPU_copy_output_ms = co,
          total_execution_ms = te, CPU_execution_ms = fsub te n\<rparr>)"

definition collect_ti_stats :: "raw_stats \<Rightarrow> py_error + ti_stats" where
  "collect_ti_stats raw =
     (case window raw ''ts:run_end'' ''ts:run_start'' of Inl err \<Rightarrow> Inl err | Inr t \<Rightarrow>
     (case window raw ''ddr:read_end'' ''ddr:read_start'' of Inl err \<Rightarrow> Inl err | Inr r \<Rightarrow>
     (case window raw ''ddr:write_end'' ''ddr:write_start'' of Inl err \<Rightarrow> Inl err | Inr w \<Rightarrow>
     (case accumulate raw (subgraph_ids raw)
             \<lparr>total_ns = t, ddr_read_ns = r, ddr_write_ns = w,
              NPU_execution_acc = 0, NPU_copy_input_acc = 0, NPU_copy_output_acc = 0\<rparr> of
        Inl err \<Rightarrow> Inl err
      | Inr st \<Rightarrow> Inr (to_ms st)))))"

text \<open>
  The counter a key holds, for stating what the aggregation sums: the value stored under
  the key, 0 when the key is missing (the aggregation raises before it would read that).
\<close>

definition counter :: "raw_stats \<Rightarrow> string \<Rightarrow> int" where
  "counter raw k = (case map_of raw k of None \<Rightarrow> 0 | Some v \<Rightarrow> v)"

definition sg_window :: "raw_stats \<Rightarrow> string \<Rightarrow> string \<Rightarrow> int" where
  \<comment> \<open>the \<open>(end - start)\<close> window \<open>what\<close> of subgraph \<open>sid\<close>\<close>
  "sg_window raw what sid =
     counter raw (sg_key sid (what @ ''_end'')) - counter raw (sg_key sid (what @ ''_start''))"

definition example_counters :: raw_stats where
  "example_counters =
     [(''ts:run_start'', 0), (''ts:run_end'', 100),
      (''ddr:read_start'', 0), (''ddr:read_end'', 0),
      (''ddr:write_start'', 0), (''ddr:write_end'', 0),
      (''ts:subgraph_0_proc_start'', 0), (''ts:subgraph_0_proc_end'', 27),
      (''ts:subgraph_0_copy_in_start'', 0), (''ts:subgraph_0_copy_in_end'', 0),
      (''ts:subgraph_0_copy_out_start'', 0), (''ts:subgraph_0_copy_out_end'', 0)]"


section \<open>numpy arrays\<close>

text \<open>
  An array is its shape, its element type and its elements in row-major order. The
  element types are the boolean, the signed and unsigned integers and the binary floats,
  each of a given width in bits; any other type (complex, object, string) is kept by its
  name, and an element of such a type is kept as the Python \<^verbatim>\<open>int\<close> it was converted from.
\<close>

datatype np_dtype = np_bool | np_int nat | np_uint nat | np_float nat | np_other string

datatype np_value =
    NpBool bool
  | NpInt int
  | NpFloat rat
  | NpInf bool          \<comment> \<open>an infinity, the positive one if the flag is set\<close>
  | NpOther string int  \<comment> \<open>the \<^verbatim>\<open>int\<close> converted to the type of this name\<close>

record tensor =
  t_shape :: "int list"
  t_dtype :: np_dtype
  t_data :: "np_value list"

definition round_to :: "nat \<Rightarrow> rat \<Rightarrow> rat" where
  \<comment> \<open>rounding to the nearest number with a significand of \<open>p\<close> bits, ties to even\<close>
  "round_to p x = (if x = 0 then 0
     else let ulp = 2 powi (fexp x - (int p - 1)) in of_int (round_half_even (x / ulp)) * ulp)"

definition np_precision :: "nat \<Rightarrow> nat" where
  \<comment> \<open>the bits of the significand of \<^verbatim>\<open>float16\<close>, \<^verbatim>\<open>float32\<close> and \<^verbatim>\<open>float64\<close>\<close>
  "np_precision bits = (if bits = 16 then 11 else if bits = 32 then 24 else 53)"

definition np_max_exponent :: "nat \<Rightarrow> nat" where
  \<comment> \<open>every finite number of the format is below 2 to this power\<close>
  "np_max_exponent bits = (if bits = 16 then 16 else if bits = 32 then 128 else 1024)"

fun np_cast :: "bool \<Rightarrow> np_dtype \<Rightarrow> int \<Rightarrow> py_error + np_value" where
  \<comment> \<open>the conversion of a Python \<^verbatim>\<open>int\<close> to an element type, as \<^verbatim>\<open>np.full\<close> and \<^verbatim>\<open>np.ones\<close>
      do it to their fill value. An \<^verbatim>\<open>int\<close> out of the range of an integer type is wrapped
      by numpy before 2.0 and raises \<^verbatim>\<open>OverflowError\<close> from 2.0 on: \<open>wraps\<close> tells which.
      A float type goes through the C double of the \<^verbatim>\<open>int\<close>.\<close>
  "np_cast wraps np_bool v = Inr (NpBool (v \<noteq> 0))"
| "np_cast wraps (np_int bits) v =
     (if - (2 ^ (bits - 1)) \<le> v \<and> v < 2 ^ (bits - 1) then Inr (NpInt v)
      else if wraps then Inr (NpInt ((v + 2 ^ (bits - 1)) mod 2 ^ bits - 2 ^ (bits - 1)))
      else Inl OverflowError)"
| "np_cast wraps (np_uint bits) v =
     (if 0 \<le> v \<and> v < 2 ^ bits then Inr (NpInt v)
      else if wraps then Inr (NpInt (v mod 2 ^ bits))
      else Inl OverflowError)"
| "np_cast wraps (np_float bits) v =
     (let d = round_double (of_int v) in
      if 2 ^ 1024 \<le> \<bar>d\<bar> then Inl OverflowError
      else (let y = round_to (np_precision bits) d in
            if 2 ^ np_max_exponent bits \<le> \<bar>y\<bar> then Inr (NpInf (0 < y)) else Inr (NpFloat y)))"
| "np_cast wraps (np_other name) v = Inr (NpOther name v)"

definition np_full :: "bool \<Rightarrow> int \<Rightarrow> int list \<Rightarrow> np_dtype \<Rightarrow> py_error + tensor" where
  \<comment> \<open>\<^verbatim>\<open>np.full(fill_value=v, shape=shape, dtype=dtype)\<close>: the array is allocated, then
      the fill value is converted to the element type and copied to every element\<close>
  "np_full wraps v shape dtype =
     (if \<exists>d\<in>set shape. d < 0 then Inl (ValueError NegativeDimensions)
      else (case np_cast wraps dtype v of
              Inl err \<Rightarrow> Inl err
            | Inr x \<Rightarrow> Inr \<lparr>t_shape = shape, t_dtype = dtype,
                            t_data = replicate (nat (prod_list shape)) x\<rparr>))"

section \<open>Files and directories\<close>

text \<open>
  A path is the list of its components below the root. What a file holds is kept by
  what the libraries parse it to: a serialised ONNX model (\<^verbatim>\<open>onnx.load\<close> succeeds
  on exactly these), a pickled input feed, a zip archive (\<^verbatim>\<open>zipfile.is_zipfile\<close> holds
  of exactly these) or other bytes. A payload of a request is a value of the same type.
\<close>

type_synonym path = "string list"

type_synonym feed = "(string \<times> tensor) list"

datatype onnx_dim =
    DimValue int       \<comment> \<open>a dimension of known size\<close>
  | DimParam string    \<comment> \<open>a symbolic dimension\<close>
  | DimUnset

fun dim_value :: "onnx_dim \<Rightarrow> int" where
  \<comment> \<open>\<^verbatim>\<open>d.dim_value\<close>: the field reads as its default 0 when the dimension holds no value\<close>
  "dim_value (DimValue n) = n"
| "dim_value (DimParam name) = 0"
| "dim_value DimUnset = 0"

record graph_input =
  gi_name :: string
  gi_shape :: "onnx_dim list"  \<comment> \<open>\<^verbatim>\<open>graph_input.type.tensor_type.shape.dim\<close>\<close>
  gi_elem_type :: int          \<comment> \<open>\<^verbatim>\<open>graph_input.type.tensor_type.elem_type\<close>\<close>

record onnx_model =
  graph_inputs :: "graph_input list"
  graph_body :: string       \<comment> \<open>the rest of the model, not looked into\<close>

datatype blob =
    Bytes string
  | Onnx onnx_model
  | Pickle feed
  | Zip "(path \<times> blob option) list"
      \<comment> \<open>the members in archive order; \<open>None\<close> is a directory member\<close>

datatype node = File blob | Dir

type_synonym fs = "(path \<times> node) list"

definition lookup :: "fs \<Rightarrow> path \<Rightarrow> node option" where
  "lookup fs p = (if p = [] then Some Dir else map_of fs p)"

definition exists :: "fs \<Rightarrow> path \<Rightarrow> bool" where
  "exists fs p = (lookup fs p \<noteq> None)"

definition is_dir :: "fs \<Rightarrow> path \<Rightarrow> bool" where
  "is_dir fs p = (lookup fs p = Some Dir)"

definition is_file :: "fs \<Rightarrow> path \<Rightarrow> bool" where
  "is_file fs p = (case lookup fs p of Some (File c) \<Rightarrow> True | _ \<Rightarrow> False)"

definition rmtree :: "path \<Rightarrow> fs \<Rightarrow> py_error + fs" where
  \<comment> \<open>\<^verbatim>\<open>shutil.rmtree(p)\<close>: \<open>p\<close> and everything below it\<close>
  "rmtree p fs =
     (if is_dir fs p then Inr (filter (\<lambda>(q, n). \<not> prefix p q) fs)
      else if exists fs p then Inl NotADirectoryError else Inl FileNotFoundError)"

definition mkdir :: "path \<Rightarrow> fs \<Rightarrow> py_error + fs" where
  \<comment> \<open>\<^verbatim>\<open>p.mkdir()\<close>\<close>
  "mkdir p fs =
     (if exists fs p then Inl FileExistsError
      else if is_dir fs (butlast p) then Inr (fs @ [(p, Dir)])
      else if exists fs (butlast p) then Inl NotADirectoryError
      else Inl FileNotFoundError)"

definition ancestors :: "path \<Rightarrow> path list" where
  \<comment> \<open>the proper, non-empty prefixes of a path, shortest first\<close>
  "ancestors p = map (\<lambda>n. take n p) [1 ..< length p]"

definition write_file :: "path \<Rightarrow> blob \<Rightarrow> fs \<Rightarrow> py_error + fs" where
  \<comment> \<open>\<^verbatim>\<open>open(p, "wb")\<close> and write: creates or truncates the file\<close>
  "write_file p c fs =
     (if is_dir fs p then Inl IsADirectoryError
      else if is_dir fs (butlast p) then Inr (AList.update p (File c) fs)
      else if exists fs (butlast p) then Inl NotADirectoryError
      else Inl FileNotFoundError)"

definition read_file :: "path \<Rightarrow> fs \<Rightarrow> py_error + blob" where
  \<comment> \<open>\<^verbatim>\<open>open(p, "rb")\<close> and read\<close>
  "read_file p fs =
     (case lookup fs p of None \<Rightarrow> Inl FileNotFoundError
      | Some Dir \<Rightarrow> Inl IsADirectoryError
      | Some (File c) \<Rightarrow> Inr c)"

definition glob :: "path \<Rightarrow> string \<Rightarrow> fs \<Rightarrow> path list" where
  \<comment> \<open>\<^verbatim>\<open>d.glob("*" + ext)\<close>: the entries directly in \<open>d\<close> whose name ends with \<open>ext\<close>,
      files and directories alike, in directory order\<close>
  "glob d ext fs =
     filter (\<lambda>q. q \<noteq> [] \<and> butlast q = d \<and> endswith (last q) ext) (map fst fs)"

definition archive_members :: "path \<Rightarrow> fs \<Rightarrow> (path \<times> blob option) list" where
  \<comment> \<open>what \<^verbatim>\<open>shutil.make_archive(..., root_dir=d)\<close> packs: everything below \<open>d\<close>,
      named relative to \<open>d\<close>\<close>
  "archive_members d fs =
     map (\<lambda>(q, n). (drop (length d) q, case n of Dir \<Rightarrow> None | File c \<Rightarrow> Some c))
       (filter (\<lambda>(q, n). strict_prefix d q) fs)"

section \<open>Compiler configuration (compiler/config.py)\<close>

text \<open>
  The option dict handed to the TIDL tools maps option names to ints, strings and floats.
\<close>

datatype optval = OInt int | OStr string | OFloat rat

type_synonym options = "(string \<times> optval) list"

datatype TIDebugLevel =
  NO_DEBUG | DEBUG_1 | DEBUG_2 | DEBUG_3
  | DEBUG_4_EXPERIMENTAL | DEBUG_5_EXPERIMENTAL | DEBUG_6_EXPERIMENTAL

fun debug_level_value :: "TIDebugLevel \<Rightarrow> int" where
  "debug_level_value NO_DEBUG = 0"
| "debug_level_value DEBUG_1 = 1"
| "debug_level_value DEBUG_2 = 2"
| "debug_level_value DEBUG_3 = 3"
| "debug_level_value DEBUG_4_EXPERIMENTAL = 4"
| "debug_level_value DEBUG_5_EXPERIMENTAL = 5"
| "debug_level_value DEBUG_6_EXPERIMENTAL = 6"

datatype TITensorBits = TENSOR_8_BITS | TENSOR_16_BITS | TENSOR_32_BITS

fun tensor_bits_value :: "TITensorBits \<Rightarrow> int" where
  "tensor_bits_value TENSOR_8_BITS = 8"
| "tensor_bits_value TENSOR_16_BITS = 16"
| "tensor_bits_value TENSOR_32_BITS = 32"

datatype TIAccuracyLevel = BASIC | ADVANCED | USER_DEFINED

fun accuracy_level_value :: "TIAccuracyLevel \<Rightarrow> int" where
  "accuracy_level_value BASIC = 0"
| "accuracy_level_value ADVANCED = 1"
| "accuracy_level_value USER_DEFINED = 9"

datatype TIQuantizationScaleType = NON_POWER_OF_2 | POWER_OF_2 | TFLITE_ASYMMETRIC

fun quantization_scale_type_value :: "TIQuantizationScaleType \<Rightarrow> int" where
  "quantization_scale_type_value NON_POWER_OF_2 = 0"
| "quantization_scale_type_value POWER_OF_2 = 1"
| "quantization_scale_type_value TFLITE_ASYMMETRIC = 3"

datatype TIDataConversion =
  DISABLE | INPUT_FORMAT_CONVERSION | OUTPUT_FORMAT_CONVERSION | INPUT_OUTPUT_FORMAT_CONVERSION

fun data_conversion_value :: "TIDataConversion \<Rightarrow> int" where
  "data_conversion_value DISABLE = 0"
| "data_conversion_value INPUT_FORMAT_CONVERSION = 1"
| "data_conversion_value OUTPUT_FORMAT_CONVERSION = 2"
| "data_conversion_value INPUT_OUTPUT_FORMAT_CONVERSION = 3"

fun join :: "string \<Rightarrow> string list \<Rightarrow> string" where
  \<comment> \<open>\<^verbatim>\<open>sep.join(value)\<close>\<close>
  "join sep [] = []"
| "join sep [x] = x"
| "join sep (x # y # ys) = x @ sep @ join sep (y # ys)"

definition safe_join :: "string list option \<Rightarrow> string" where
  \<comment> \<open>\<^verbatim>\<open>_safe_join\<close> with the default separator\<close>
  "safe_join v = (case v of None \<Rightarrow> [] | Some xs \<Rightarrow> join '','' xs)"

definition int_of_bool :: "bool \<Rightarrow> int" where
  "int_of_bool b = (if b then 1 else 0)"

record TIModelCfg =
  is_od_model :: bool
  deny_list_layer_type :: "string list option"
  deny_list_layer_name :: "string list option"
  allow_list_layer_name :: "string list option"

definition TIModelCfg_default :: TIModelCfg where
  \<comment> \<open>\<^verbatim>\<open>TIModelCfg()\<close>\<close>
  "TIModelCfg_default =
     \<lparr>is_od_model = False, deny_list_layer_type = None, deny_list_layer_name = None,
      allow_list_layer_name = None\<rparr>"

definition model_cfg_dict :: "TIModelCfg \<Rightarrow> options" where
  "model_cfg_dict c =
     [(''model_type'', OStr (if is_od_model c then ''OD'' else [])),
      (''deny_list:layer_type'', OStr (safe_join (deny_list_layer_type c))),
      (''deny_list:layer_name'', OStr (safe_join (deny_list_layer_name c))),
      (''allow_list:layer_name'', OStr (safe_join (allow_list_layer_name c)))]"

record TIPrecisionCfg =
  tensor_bits :: TITensorBits
  output_feature_16bit_names_list :: "string list option"
  params_16bit_names_list :: "string list option"
  mixed_precision_factor :: "rat option"

definition TIPrecisionCfg_of :: "TITensorBits \<Rightarrow> TIPrecisionCfg" where
  \<comment> \<open>\<^verbatim>\<open>TIPrecisionCfg(tensor_bits=b)\<close>\<close>
  "TIPrecisionCfg_of b =
     \<lparr>tensor_bits = b, output_feature_16bit_names_list = None,
      params_16bit_names_list = None, mixed_precision_factor = None\<rparr>"

definition precision_cfg_dict :: "TIPrecisionCfg \<Rightarrow> options" where
  "precision_cfg_dict c =
     [(''tensor_bits'', OInt (tensor_bits_value (tensor_bits c))),
      (''advanced_options:output_feature_16bit_names_list'',
         OStr (safe_join (output_feature_16bit_names_list c))),
      (''advanced_options:params_16bit_names_list'',
         OStr (safe_join (params_16bit_names_list c))),
      (''advanced_options:mixed_precision_factor'',
         (case mixed_precision_factor c of None \<Rightarrow> OInt (- 1) | Some f \<Rightarrow> OFloat f))]"

record TICalibrationCfg =
  accuracy_level :: TIAccuracyLevel
  quantization_scale_type :: TIQuantizationScaleType
  high_resolution_optimization :: bool
  pre_batchnorm_fold :: bool
  activation_clipping :: bool
  weight_clipping :: bool
  bias_calibration :: bool
  calibration_iterations :: int
  add_data_convert_ops :: TIDataConversion
  channel_wise_quantization :: bool

definition TICalibrationCfg_of :: "TIAccuracyLevel \<Rightarrow> TICalibrationCfg" where
  \<comment> \<open>\<^verbatim>\<open>TICalibrationCfg(accuracy_level=a)\<close>, every other field at its default\<close>
  "TICalibrationCfg_of a =
     \<lparr>accuracy_level = a, quantization_scale_type = NON_POWER_OF_2,
      high_resolution_optimization = False, pre_batchnorm_fold = True,
      activation_clipping = True, weight_clipping = True, bias_calibration = True,
      calibration_iterations = 5, add_data_convert_ops = INPUT_OUTPUT_FORMAT_CONVERSION,
      channel_wise_quantization = False\<rparr>"

definition calibration_cfg_dict :: "TICalibrationCfg \<Rightarrow> options" where
  "calibration_cfg_dict c =
     [(''accuracy_level'', OInt (accuracy_level_value (accuracy_level c))),
      (''advanced_options:quantization_scale_type'',
         OInt (quantization_scale_type_value (quantization_scale_type c))),
      (''advanced_options:high_resolution_optimization'',
         OInt (int_of_bool (high_resolution_optimization c))),
      (''advanced_options:activation_clipping'', OInt (int_of_bool (activation_clipping c))),
      (''advanced_options:weight_clipping'', OInt (int_of_bool (weight_clipping c))),
      (''advanced_options:bias_calibration'', OInt (int_of_bool (bias_calibration c))),
      (''advanced_options:calibration_iterations'', OInt (calibration_iterations c)),
      (''advanced_options:add_data_convert_ops'',
         OInt (data_conversion_value (add_data_convert_ops c))),
      (''advanced_options:channel_wise_quantization'',
         OInt (int_of_bool (channel_wise_quantization c)))]"

definition dict_update :: "options \<Rightarrow> options \<Rightarrow> options" where
  \<comment> \<open>\<^verbatim>\<open>d.update(new)\<close>: \<open>dict_update new d\<close>\<close>
  "dict_update new d = foldl (\<lambda>al (k, v). AList.update k v al) d new"

text \<open>The arguments of \<^verbatim>\<open>TICompiler.compile\<close>.\<close>

record compile_args =
  ca_model_path :: path
  ca_output_dir :: path
  ca_calibration_data_dir :: path
  ca_model_cfg :: TIModelCfg
  ca_precision_cfg :: TIPrecisionCfg
  ca_calibration_cfg :: TICalibrationCfg
  ca_copy_onnx_to_output_dir :: bool
  ca_disable_shape_inference :: bool
  ca_force_overwrite :: bool

section \<open>Effects: the file tree and the order of steps\<close>

text \<open>
  The programs work by side effect on the file tree, and an exception leaves the tree
  as it is at the \<^verbatim>\<open>raise\<close>. A step is therefore a function from the state to a
  result, an exception or a value, and the state after it, which is there in both cases.
  The state also records the steps taken, in order, as a list of events.
\<close>

datatype event =
    DirReset                 \<comment> \<open>\<^verbatim>\<open>_cleanup_working_dir\<close> has recreated the working tree\<close>
  | ModelPersisted           \<comment> \<open>\<^verbatim>\<open>onnx.save\<close> has written the model slot\<close>
  | CalibrationResolved      \<comment> \<open>synthetic samples generated, or the archive extracted\<close>
  | WorkerSpawned compile_args
      \<comment> \<open>\<^verbatim>\<open>multiprocessing.Pool(processes=1)\<close> has created the worker, which is
          given these arguments\<close>
  | ShapeInferenceStarted path
      \<comment> \<open>\<^verbatim>\<open>shape_inference.infer_shapes_path\<close> is called on the model at this path\<close>
  | ShapeInferenceDone path  \<comment> \<open>it has returned, the file at this path rewritten\<close>
  | SessionOpened options    \<comment> \<open>\<^verbatim>\<open>ort.InferenceSession\<close> is called with these compiler options\<close>
  | CalibrationRun path      \<comment> \<open>\<^verbatim>\<open>ort_session.run\<close> is called on the sample at this path\<close>
  | ModelCopied
  | WorkerExited             \<comment> \<open>the pool is left: the worker is terminated\<close>
  | Packaged                 \<comment> \<open>\<^verbatim>\<open>shutil.make_archive\<close> has written the archive\<close>

record state =
  files :: fs
  log :: "event list"

type_synonym 'a action = "state \<Rightarrow> (py_error + 'a) \<times> state"

definition ret :: "'a \<Rightarrow> 'a action" where
  "ret x s = (Inr x, s)"

definition raise :: "py_error \<Rightarrow> 'a action" where
  "raise err s = (Inl err, s)"

definition bind :: "'a action \<Rightarrow> ('a \<Rightarrow> 'b action) \<Rightarrow> 'b action" where
  "bind m f s = (case m s of (Inl err, s') \<Rightarrow> (Inl err, s') | (Inr x, s') \<Rightarrow> f x s')"

definition seq :: "unit action \<Rightarrow> 'b action \<Rightarrow> 'b action" where
  "seq m k = bind m (\<lambda>u. k)"

definition emit :: "event \<Rightarrow> unit action" where
  "emit e s = (Inr (), s\<lparr>log := log s @ [e]\<rparr>)"

definition fs_op :: "(fs \<Rightarrow> py_error + fs) \<Rightarrow> unit action" where
  \<comment> \<open>one call that changes the file tree, or raises and changes nothing\<close>
  "fs_op f s = (case f (files s) of Inl err \<Rightarrow> (Inl err, s) | Inr fs' \<Rightarrow> (Inr (), s\<lparr>files := fs'\<rparr>))"

definition fs_read :: "(fs \<Rightarrow> 'a) \<Rightarrow> 'a action" where
  "fs_read f s = (Inr (f (files s)), s)"

definition lift :: "py_error + 'a \<Rightarrow> 'a action" where
  "lift r s = (r, s)"

definition try_except :: "'a action \<Rightarrow> (py_error \<Rightarrow> 'a action) \<Rightarrow> 'a action" where
  \<comment> \<open>\<^verbatim>\<open>try: m  except Exception as exc: h(exc)\<close>\<close>
  "try_except m h s = (case m s of (Inl err, s') \<Rightarrow> h err s' | (Inr x, s') \<Rightarrow> (Inr x, s'))"

fun make_missing :: "path list \<Rightarrow> unit action" where
  \<comment> \<open>create the directories of the list that do not exist yet, parents first\<close>
  "make_missing [] = ret ()"
| "make_missing (q # qs) =
     bind (fs_read (\<lambda>fs. is_dir fs q))
       (\<lambda>there. seq (if there then ret () else fs_op (mkdir q)) (make_missing qs))"

definition mkdir_parents :: "path \<Rightarrow> unit action" where
  \<comment> \<open>\<^verbatim>\<open>p.mkdir(parents=True)\<close>, also \<^verbatim>\<open>os.makedirs(p)\<close>: \<open>p\<close> itself must not exist\<close>
  "mkdir_parents p =
     bind (fs_read (\<lambda>fs. exists fs p))
       (\<lambda>there. if there then raise FileExistsError
                 else seq (make_missing (ancestors p)) (fs_op (mkdir p)))"

fun extract_member :: "path \<Rightarrow> path \<times> blob option \<Rightarrow> unit action" where
  \<comment> \<open>\<^verbatim>\<open>ZipFile._extract_member\<close>: missing upper directories are made, a directory
      member is made unless it is there, a file member is written\<close>
  "extract_member d (rel, m) =
     (let target = d @ rel; upper = butlast target in
      bind (fs_read (\<lambda>fs. exists fs upper))
        (\<lambda>there. seq (if there then ret () else mkdir_parents upper)
           (case m of
              None \<Rightarrow> bind (fs_read (\<lambda>fs. is_dir fs target))
                        (\<lambda>isd. if isd then ret () else fs_op (mkdir target))
            | Some c \<Rightarrow> fs_op (write_file target c))))"

fun extractall :: "path \<Rightarrow> (path \<times> blob option) list \<Rightarrow> unit action" where
  \<comment> \<open>\<^verbatim>\<open>zf.extractall(d)\<close>, member by member in archive order\<close>
  "extractall d [] = ret ()"
| "extractall d (m # ms) = seq (extract_member d m) (extractall d ms)"

section \<open>Synthetic calibration data (compiler/common.py)\<close>

text \<open>
  What the programs take from the libraries and the host is collected in one record: a
  function where the library computes, \<open>None\<close> where the call raises.
\<close>

record libs =
  tensor_dtype_to_np_dtype :: "int \<Rightarrow> np_dtype option"
    \<comment> \<open>\<^verbatim>\<open>onnx.helper.tensor_dtype_to_np_dtype\<close>, in old versions of onnx the table
        \<^verbatim>\<open>onnx.mapping.TENSOR_TYPE_TO_NP_TYPE\<close>\<close>
  np_dtype_of_name :: "string \<Rightarrow> np_dtype option"
    \<comment> \<open>\<^verbatim>\<open>np.dtype(name)\<close>, which raises \<^verbatim>\<open>TypeError\<close> on a name it does not know\<close>
  np_wraps :: bool
    \<comment> \<open>whether the installed numpy wraps a fill value out of the range of an integer
        type (it raises \<^verbatim>\<open>OverflowError\<close> otherwise)\<close>
  infer_shapes :: "onnx_model \<Rightarrow> onnx_model option"
    \<comment> \<open>\<^verbatim>\<open>shape_inference.infer_shapes_path\<close>: the model it writes back\<close>
  tidl_compile :: "onnx_model \<Rightarrow> options \<Rightarrow> (string \<times> blob) list option"
    \<comment> \<open>\<^verbatim>\<open>ort.InferenceSession\<close> with the TIDL compilation provider: the side files
        it leaves in the artifacts folder\<close>
  tidl_run :: "feed \<Rightarrow> bool"
    \<comment> \<open>whether \<^verbatim>\<open>ort_session.run\<close> on this input feed returns\<close>
  environ_TIDL_TOOLS_PATH :: "string option"
  available_providers :: "string list"
  measure_latency_remote :: "blob \<Rightarrow> (string \<times> rat) list option"
    \<comment> \<open>the answer of the device server to the artifact archive\<close>
  ort_session_inputs :: "blob \<Rightarrow> string list \<Rightarrow> (string \<times> string \<times> int list) list option"
    \<comment> \<open>on the device: \<^verbatim>\<open>ort.InferenceSession\<close> on a model file with the given providers,
        then \<^verbatim>\<open>get_inputs()\<close> as name, type and shape\<close>
  np_mean_times :: rat
    \<comment> \<open>\<^verbatim>\<open>float(np.mean(times))\<close> of the measured wall-clock times\<close>
  get_TI_benchmark_data :: raw_stats

definition digit_char :: "nat \<Rightarrow> char" where
  "digit_char n = ''0123456789'' ! n"

fun str_nat :: "nat \<Rightarrow> string" where
  \<comment> \<open>\<^verbatim>\<open>str(i)\<close> for \<open>i \<ge> 0\<close>\<close>
  "str_nat n = (if n < 10 then [digit_char n] else str_nat (n div 10) @ [digit_char (n mod 10)])"

declare str_nat.simps [simp del]

definition onnx_dtype_to_np_dtype :: "libs \<Rightarrow> int \<Rightarrow> py_error + np_dtype" where
  "onnx_dtype_to_np_dtype L t =
     (case tensor_dtype_to_np_dtype L t of
        None \<Rightarrow> Inl (LibraryError ''tensor_dtype_to_np_dtype'')
      | Some dt \<Rightarrow> Inr dt)"

fun fake_inputs :: "libs \<Rightarrow> int \<Rightarrow> graph_input list \<Rightarrow> feed \<Rightarrow> py_error + feed" where
  \<comment> \<open>the inner loop: \<^verbatim>\<open>fake_inputs[graph_input.name] = np.full(...)\<close> with the shape
      \<^verbatim>\<open>tuple(d.dim_value for d in graph_input.type.tensor_type.shape.dim)\<close>\<close>
  "fake_inputs L i [] acc = Inr acc"
| "fake_inputs L i (g # gs) acc =
     (case onnx_dtype_to_np_dtype L (gi_elem_type g) of
        Inl err \<Rightarrow> Inl err
      | Inr dtype \<Rightarrow>
          (case np_full (np_wraps L) i (map dim_value (gi_shape g)) dtype of
             Inl err \<Rightarrow> Inl err
           | Inr t \<Rightarrow> fake_inputs L i gs (AList.update (gi_name g) t acc)))"

definition fake_name :: "int \<Rightarrow> string" where
  \<comment> \<open>\<^verbatim>\<open>f"fake_calibration_data_{i}.pickle"\<close>, for the \<open>i \<ge> 1\<close> of the loop\<close>
  "fake_name i = ''fake_calibration_data_'' @ str_nat (nat i) @ ''.pickle''"

fun fake_files :: "libs \<Rightarrow> graph_input list \<Rightarrow> path \<Rightarrow> int list \<Rightarrow> unit action" where
  \<comment> \<open>the outer loop over \<^verbatim>\<open>range(1, n_output_files + 1)\<close>\<close>
  "fake_files L gs output_dir [] = ret ()"
| "fake_files L gs output_dir (i # is) =
     bind (lift (fake_inputs L i gs []))
       (\<lambda>inputs. seq (fs_op (write_file (output_dir @ [fake_name i]) (Pickle inputs)))
                   (fake_files L gs output_dir is))"

definition onnx_load :: "path \<Rightarrow> onnx_model action" where
  \<comment> \<open>\<^verbatim>\<open>onnx.load(path)\<close>: the file must be there and parse as a model\<close>
  "onnx_load p =
     bind (fs_read (read_file p))
       (\<lambda>r. case r of
               Inl err \<Rightarrow> raise err
             | Inr (Onnx m) \<Rightarrow> ret m
             | Inr other \<Rightarrow> raise (LibraryError ''onnx.load''))"

definition n_output_files_default :: int where
  \<comment> \<open>the default of the parameter: \<^verbatim>\<open>n_output_files: int = 2\<close>\<close>
  "n_output_files_default = 2"

definition generate_fake_calibration_data :: "libs \<Rightarrow> path \<Rightarrow> path \<Rightarrow> int \<Rightarrow> unit action" where
  "generate_fake_calibration_data L model_path output_dir n_output_files =
     bind (onnx_load model_path)
       (\<lambda>model. fake_files L (graph_inputs model) output_dir [1 .. n_output_files])"

section \<open>The compiler (compiler/compiler.py)\<close>

record TICompiler =
  tidl_tools_path :: string
  debug_level :: TIDebugLevel
  max_num_subgraphs :: int
  ti_internal_nc_flag :: int

definition TICompiler_init ::
  "libs \<Rightarrow> string option \<Rightarrow> TIDebugLevel \<Rightarrow> int \<Rightarrow> int \<Rightarrow> py_error + TICompiler" where
  "TICompiler_init L tools_path dbg max_sg nc_flag =
     (case (case tools_path of
              Some p \<Rightarrow> Inr p
            | None \<Rightarrow> (case environ_TIDL_TOOLS_PATH L of
                         None \<Rightarrow> Inl (ValueError ToolsPathNotSet)
                       | Some p \<Rightarrow> Inr p)) of
        Inl err \<Rightarrow> Inl err
      | Inr p \<Rightarrow>
          if ''TIDLCompilationProvider'' \<notin> set (available_providers L)
          then Inl (RuntimeError ''Compiler provider is not available.'')
          else if max_sg \<le> 0 \<or> max_sg > 16 then Inl (ValueError MaxNumSubgraphsRange)
          else Inr \<lparr>tidl_tools_path = p, debug_level = dbg, max_num_subgraphs = max_sg,
                    ti_internal_nc_flag = nc_flag\<rparr>)"

definition path_str :: "path \<Rightarrow> string" where
  \<comment> \<open>\<^verbatim>\<open>str(path)\<close>\<close>
  "path_str p = concat (map (\<lambda>c. ''/'' @ c) p)"

fun run_calibration_loop :: "libs \<Rightarrow> path list \<Rightarrow> unit action" where
  "run_calibration_loop L [] = ret ()"
| "run_calibration_loop L (p # ps) =
     bind (fs_read (read_file p))
       (\<lambda>r. case r of
               Inl err \<Rightarrow> raise err
             | Inr (Pickle input_data) \<Rightarrow>
                 seq (emit (CalibrationRun p))
                   (if tidl_run L input_data then run_calibration_loop L ps
                    else raise (LibraryError ''ort_session.run''))
             | Inr other \<Rightarrow> raise UnpicklingError)"

definition run_calibration :: "libs \<Rightarrow> path \<Rightarrow> unit action" where
  \<comment> \<open>\<^verbatim>\<open>_run_calibration\<close>: one run per path of \<^verbatim>\<open>glob("*.pickle")\<close>\<close>
  "run_calibration L calibration_data_dir_path =
     bind (fs_read (glob calibration_data_dir_path ''.pickle'')) (run_calibration_loop L)"

definition prepare_output_dir :: "path \<Rightarrow> bool \<Rightarrow> unit action" where
  "prepare_output_dir output_dir force_overwrite =
     bind (fs_read (\<lambda>fs. (exists fs output_dir, is_dir fs output_dir)))
       (\<lambda>(there, isd).
          if there then
            (if \<not> isd then raise (ValueError OutputDirNotDirectory)
             else if force_overwrite
               then seq (fs_op (rmtree output_dir)) (mkdir_parents output_dir)
             else raise (ValueError OutputDirExists))
          else mkdir_parents output_dir)"

definition compiler_options :: "TICompiler \<Rightarrow> compile_args \<Rightarrow> options" where
  \<comment> \<open>the option dict before the calibration frames are counted\<close>
  "compiler_options c a =
     dict_update (calibration_cfg_dict (ca_calibration_cfg a))
       (dict_update (precision_cfg_dict (ca_precision_cfg a))
          (dict_update (model_cfg_dict (ca_model_cfg a))
             [(''platform'', OStr ''J7''),
              (''version'', OStr ''7.2''),
              (''debug_level'', OInt (debug_level_value (debug_level c))),
              (''tidl_tools_path'', OStr (tidl_tools_path c)),
              (''artifacts_folder'', OStr (path_str (ca_output_dir a))),
              (''max_num_subgraphs'', OInt (max_num_subgraphs c)),
              (''ti_internal_nc_flag'', OInt (ti_internal_nc_flag c))]))"

definition library_load :: "string \<Rightarrow> path \<Rightarrow> onnx_model action" where
  \<comment> \<open>a library call that reads the model at a path itself: it raises its own
      exception when there is no model file at the path\<close>
  "library_load name p =
     bind (fs_read (\<lambda>fs. lookup fs p))
       (\<lambda>n. case n of
               Some (File (Onnx m)) \<Rightarrow> ret m
             | other \<Rightarrow> raise (LibraryError name))"

definition shape_inference :: "libs \<Rightarrow> path \<Rightarrow> unit action" where
  \<comment> \<open>\<^verbatim>\<open>shape_inference.infer_shapes_path(model_path, output_path=model_path)\<close>\<close>
  "shape_inference L model_path =
     seq (emit (ShapeInferenceStarted model_path))
       (bind (library_load ''infer_shapes_path'' model_path)
          (\<lambda>m. case infer_shapes L m of
                  None \<Rightarrow> raise (LibraryError ''infer_shapes_path'')
                | Some m' \<Rightarrow> seq (fs_op (write_file model_path (Onnx m')))
                              (emit (ShapeInferenceDone model_path))))"

fun write_files :: "path \<Rightarrow> (string \<times> blob) list \<Rightarrow> unit action" where
  "write_files d [] = ret ()"
| "write_files d ((name, c) # rest) = seq (fs_op (write_file (d @ [name]) c)) (write_files d rest)"

definition open_session :: "libs \<Rightarrow> path \<Rightarrow> options \<Rightarrow> path \<Rightarrow> unit action" where
  \<comment> \<open>\<^verbatim>\<open>ort.InferenceSession(path, providers=["TIDLCompilationProvider", ...],
      provider_options=[compiler_options, {}])\<close>\<close>
  "open_session L model_path opts output_dir =
     seq (emit (SessionOpened opts))
       (bind (library_load ''InferenceSession'' model_path)
          (\<lambda>m. case tidl_compile L m opts of
                  None \<Rightarrow> raise (LibraryError ''InferenceSession'')
                | Some side_files \<Rightarrow> write_files output_dir side_files))"

definition copy_file :: "path \<Rightarrow> path \<Rightarrow> unit action" where
  \<comment> \<open>\<^verbatim>\<open>shutil.copy(src, dst)\<close>\<close>
  "copy_file src dst =
     bind (fs_read (read_file src))
       (\<lambda>r. case r of Inl err \<Rightarrow> raise err | Inr c \<Rightarrow> fs_op (write_file dst c))"

definition compile :: "libs \<Rightarrow> TICompiler \<Rightarrow> compile_args \<Rightarrow> unit action" where
  "compile L c a =
     seq (prepare_output_dir (ca_output_dir a) (ca_force_overwrite a))
       (bind (fs_read (\<lambda>fs. \<not> is_dir fs (ca_calibration_data_dir a)
                              \<or> \<not> exists fs (ca_calibration_data_dir a)))
          (\<lambda>missing.
             if missing then raise (ValueError CalibrationDirNotFound)
             else
               bind (fs_read (\<lambda>fs. int (length (glob (ca_calibration_data_dir a) ''.pickle'' fs))))
                 (\<lambda>calibration_frames.
                    if calibration_frames = 0 then raise (ValueError NoCalibrationInput)
                    else
                      seq (if ca_disable_shape_inference a then ret ()
                           else shape_inference L (ca_model_path a))
                        (seq (open_session L (ca_model_path a)
                                (dict_update
                                   [(''advanced_options:calibration_frames'', OInt calibration_frames)]
                                   (compiler_options c a))
                                (ca_output_dir a))
                           (seq (run_calibration L (ca_calibration_data_dir a))
                              (if ca_copy_onnx_to_output_dir a
                               then seq (copy_file (ca_model_path a)
                                           (ca_output_dir a @ [last (ca_model_path a)]))
                                      (emit ModelCopied)
                               else ret ()))))))"

section \<open>The orchestration server (main\_server.py)\<close>

record main_server =
  srv_working_dir :: path
  srv_tensor_bits :: TITensorBits

definition model_slot :: "main_server \<Rightarrow> path" where
  "model_slot srv = srv_working_dir srv @ [''model.onnx'']"

definition artifacts_slot :: "main_server \<Rightarrow> path" where
  "artifacts_slot srv = srv_working_dir srv @ [''artifacts'']"

definition calibration_slot :: "main_server \<Rightarrow> path" where
  "calibration_slot srv = srv_working_dir srv @ [''calibration_data'']"

definition cleanup_working_dir :: "main_server \<Rightarrow> unit action" where
  "cleanup_working_dir srv =
     seq (bind (fs_read (\<lambda>fs. exists fs (srv_working_dir srv)))
            (\<lambda>there. if there then fs_op (rmtree (srv_working_dir srv)) else ret ()))
       (seq (mkdir_parents (srv_working_dir srv))
          (seq (fs_op (mkdir (artifacts_slot srv)))
             (seq (fs_op (mkdir (calibration_slot srv)))
                (emit DirReset))))"

definition run_compilation :: "libs \<Rightarrow> compile_args \<Rightarrow> unit action" where
  \<comment> \<open>\<^verbatim>\<open>_run_compilation\<close>, the body of the worker\<close>
  "run_compilation L a =
     bind (lift (TICompiler_init L None NO_DEBUG 16 0)) (\<lambda>compiler. compile L compiler a)"

definition on_exit :: "'a action \<Rightarrow> event \<Rightarrow> 'a action" where
  \<comment> \<open>leaving a \<^verbatim>\<open>with\<close> block: the event happens on return and on exception\<close>
  "on_exit m e s = (case m s of (r, s') \<Rightarrow> (r, s'\<lparr>log := log s' @ [e]\<rparr>))"

definition run_isolated_compilation :: "libs \<Rightarrow> compile_args \<Rightarrow> unit action" where
  \<comment> \<open>\<^verbatim>\<open>with multiprocessing.Pool(processes=1) as pool: pool.apply(...)\<close>: an exception
      of the worker is raised again in the server\<close>
  "run_isolated_compilation L a =
     seq (emit (WorkerSpawned a)) (on_exit (run_compilation L a) WorkerExited)"

definition worker_args :: "main_server \<Rightarrow> TICalibrationCfg \<Rightarrow> compile_args" where
  \<comment> \<open>the keyword arguments of the call in \<^verbatim>\<open>_compile_model\<close>; the last three are the
      defaults of \<^verbatim>\<open>TICompiler.compile\<close>\<close>
  "worker_args srv calibration_cfg =
     \<lparr>ca_model_path = model_slot srv,
      ca_output_dir = artifacts_slot srv,
      ca_calibration_data_dir = calibration_slot srv,
      ca_model_cfg = TIModelCfg_default,
      ca_precision_cfg = TIPrecisionCfg_of (srv_tensor_bits srv),
      ca_calibration_cfg = calibration_cfg,
      ca_copy_onnx_to_output_dir = True,
      ca_disable_shape_inference = False,
      ca_force_overwrite = True\<rparr>"

definition resolve_calibration :: "libs \<Rightarrow> main_server \<Rightarrow> blob option \<Rightarrow> TICalibrationCfg action" where
  \<comment> \<open>the two branches of \<^verbatim>\<open>if calibration_data is None\<close>\<close>
  "resolve_calibration L srv calibration_data =
     (case calibration_data of
        None \<Rightarrow>
          seq (generate_fake_calibration_data L (model_slot srv) (calibration_slot srv) 2)
            (ret ((TICalibrationCfg_of BASIC)\<lparr>calibration_iterations := 1\<rparr>))
      | Some (Zip members) \<Rightarrow>
          seq (extractall (calibration_slot srv) members)
            (ret ((TICalibrationCfg_of ADVANCED)
                    \<lparr>calibration_iterations := 10, pre_batchnorm_fold := True,
                     activation_clipping := True, weight_clipping := True,
                     bias_calibration := True\<rparr>))
      | Some other \<Rightarrow> raise (ValueError CalibrationNotZip))"

definition make_archive :: "main_server \<Rightarrow> path action" where
  \<comment> \<open>\<^verbatim>\<open>shutil.make_archive(working_dir / "artifacts", "zip", root_dir=artifacts_dir)\<close>\<close>
  "make_archive srv =
     bind (fs_read (\<lambda>fs. (is_dir fs (artifacts_slot srv), archive_members (artifacts_slot srv) fs)))
       (\<lambda>(isd, members).
          if \<not> isd then raise FileNotFoundError
          else seq (fs_op (write_file (srv_working_dir srv @ [''artifacts.zip'']) (Zip members)))
                 (seq (emit Packaged) (ret (srv_working_dir srv @ [''artifacts.zip'']))))"

definition compile_model :: "libs \<Rightarrow> main_server \<Rightarrow> blob \<Rightarrow> blob option \<Rightarrow> path action" where
  \<comment> \<open>\<^verbatim>\<open>_compile_model(model, calibration_data)\<close>\<close>
  "compile_model L srv model calibration_data =
     bind (case model of Onnx m \<Rightarrow> ret m | other \<Rightarrow> raise (LibraryError ''load_model_from_string''))
       (\<lambda>onnx_model.
          seq (fs_op (write_file (model_slot srv) (Onnx onnx_model)))
            (seq (emit ModelPersisted)
               (seq (try_except
                       (bind (resolve_calibration L srv calibration_data)
                          (\<lambda>calibration_cfg.
                             seq (emit CalibrationResolved)
                               (run_isolated_compilation L (worker_args srv calibration_cfg))))
                       (\<lambda>exc. raise (HTTPInternalServerError exc)))
                  (make_archive srv))))"

definition compile_model_handler :: "libs \<Rightarrow> main_server \<Rightarrow> blob \<Rightarrow> blob option \<Rightarrow> blob action" where
  \<comment> \<open>the handler of \<^verbatim>\<open>POST /compile\<close> on the unpickled request
      \<^verbatim>\<open>{"model": ..., "calibration_data": ...}\<close>; the response is the archive file\<close>
  "compile_model_handler L srv model calibration_data =
     bind (compile_model L srv model calibration_data)
       (\<lambda>path_to_compiled_model.
          bind (fs_read (read_file path_to_compiled_model)) lift)"

definition measure_latency :: "libs \<Rightarrow> main_server \<Rightarrow> blob \<Rightarrow> (string \<times> rat) list action" where
  \<comment> \<open>\<^verbatim>\<open>MainLatencyServer.measure_latency(model)\<close>\<close>
  "measure_latency L srv model =
     seq (cleanup_working_dir srv)
       (bind (compile_model L srv model None)
          (\<lambda>path_to_model_artifacts.
             bind (bind (fs_read (read_file path_to_model_artifacts)) lift)
               (\<lambda>model_artifacts.
                  case measure_latency_remote L model_artifacts of
                    None \<Rightarrow> raise (RuntimeError ''measure_latency_remote'')
                  | Some result \<Rightarrow> ret result)))"

section \<open>The device runner (ti\_ort\_model.py, \_\_init\_\_ and batch\_size)\<close>

record ti_model =
  tm_model_path :: path
  tm_providers :: "string list"
  tm_artifacts_folder :: "path option"
    \<comment> \<open>\<^verbatim>\<open>artifacts_folder\<close> of the TIDL provider options, when there are any\<close>
  tm_inputs :: "(string \<times> string \<times> int list) list"
  dummy_input_feed :: feed

definition select_model :: "path \<Rightarrow> fs \<Rightarrow> py_error + path \<times> string list \<times> path option" where
  \<comment> \<open>the branches of \<^verbatim>\<open>__init__\<close> up to the session: the model file, the providers
      and the artifacts folder\<close>
  "select_model model_path fs =
     (if is_dir fs model_path then
        (let onnx_path_variants = glob model_path ''.onnx'' fs in
         if length onnx_path_variants \<noteq> 1 then Inl (ValueError OnlyOneOnnx)
         else Inr (onnx_path_variants ! 0,
                   [''TIDLExecutionProvider'', ''CPUExecutionProvider''], Some model_path))
      else if is_file fs model_path then Inr (model_path, [''CPUExecutionProvider''], None)
      else Inl (ValueError BadModelPath))"

definition ort_value_dtype_to_np_dtype :: "libs \<Rightarrow> string \<Rightarrow> py_error + np_dtype" where
  \<comment> \<open>\<^verbatim>\<open>re.match(r"tensor\((.*)\)", ort_dtype)\<close>: the group runs to the last closing
      parenthesis of the first line; then \<^verbatim>\<open>np.dtype(dtype)\<close>\<close>
  "ort_value_dtype_to_np_dtype L ort_dtype =
     (let line = takeWhile (\<lambda>c. c \<noteq> CHR 0x0A) (drop 7 ort_dtype) in
      if \<not> (prefix ''tensor('' ort_dtype \<and> CHR '')'' \<in> set line)
      then Inl (ValueError UnknownTensorType)
      else (let dtype = rev (tl (dropWhile (\<lambda>c. c \<noteq> CHR '')'') (rev line)))
            in case np_dtype_of_name L (if dtype = ''float'' then ''float32'' else dtype) of
                 None \<Rightarrow> Inl TypeError
               | Some dt \<Rightarrow> Inr dt))"

fun dummy_feed :: "libs \<Rightarrow> (string \<times> string \<times> int list) list \<Rightarrow> feed \<Rightarrow> py_error + feed" where
  \<comment> \<open>\<^verbatim>\<open>self._dummy_input_feed[input_info.name] = np.ones(shape=..., dtype=dtype)\<close>;
      \<^verbatim>\<open>np.ones\<close> fills with the value 1 as \<^verbatim>\<open>np.full\<close> does\<close>
  "dummy_feed L [] acc = Inr acc"
| "dummy_feed L ((name, ty, shape) # rest) acc =
     (case ort_value_dtype_to_np_dtype L ty of
        Inl err \<Rightarrow> Inl err
      | Inr dtype \<Rightarrow>
          (case np_full (np_wraps L) 1 shape dtype of
             Inl err \<Rightarrow> Inl err
           | Inr t \<Rightarrow> dummy_feed L rest (AList.update name t acc)))"

definition inference_session ::
  "libs \<Rightarrow> path \<Rightarrow> string list \<Rightarrow> (string \<times> string \<times> int list) list action" where
  \<comment> \<open>\<^verbatim>\<open>ort.InferenceSession(str(model_path), providers=providers, ...)\<close>: the runtime
      raises when there is no file at the path or it cannot load what the file holds\<close>
  "inference_session L model_path providers =
     bind (fs_read (\<lambda>fs. lookup fs model_path))
       (\<lambda>n. case n of
               Some (File model_file) \<Rightarrow>
                 (case ort_session_inputs L model_file providers of
                    None \<Rightarrow> raise (LibraryError ''InferenceSession'')
                  | Some inputs \<Rightarrow> ret inputs)
             | other \<Rightarrow> raise (LibraryError ''InferenceSession''))"

definition TIOnnxruntimeModel_init :: "libs \<Rightarrow> path \<Rightarrow> ti_model action" where
  "TIOnnxruntimeModel_init L model_path =
     bind (bind (fs_read (select_model model_path)) lift)
       (\<lambda>(selected, providers, artifacts_folder).
          bind (inference_session L selected providers)
            (\<lambda>inputs.
               bind (lift (dummy_feed L inputs []))
                 (\<lambda>feed. ret \<lparr>tm_model_path = selected, tm_providers = providers,
                                tm_artifacts_folder = artifacts_folder,
                                tm_inputs = inputs, dummy_input_feed = feed\<rparr>)))"

definition batch_size :: "ti_model \<Rightarrow> py_error + int" where
  \<comment> \<open>\<^verbatim>\<open>self.ort_session.get_inputs()[0].shape[0]\<close>\<close>
  "batch_size tm =
     (case tm_inputs tm of
        [] \<Rightarrow> Inl IndexError
      | (name, ty, shape) # rest \<Rightarrow> (case shape of [] \<Rightarrow> Inl IndexError | d # ds \<Rightarrow> Inr d))"

section \<open>The device server (device\_server.py)\<close>

record device_server =
  dev_working_dir :: path
  reboot_after_measure :: bool

record latency_report = ti_stats +
  latency :: rat
  ORT_overhead_ms :: rat

definition create_ti_model :: "libs \<Rightarrow> device_server \<Rightarrow> blob \<Rightarrow> ti_model action" where
  "create_ti_model L dev model =
     seq (bind (fs_read (\<lambda>fs. exists fs (dev_working_dir dev)))
            (\<lambda>there. if there then fs_op (rmtree (dev_working_dir dev)) else ret ()))
       (seq (mkdir_parents (dev_working_dir dev))
          (bind (case model of
                   Zip members \<Rightarrow>
                     seq (extractall (dev_working_dir dev) members) (ret (dev_working_dir dev))
                 | other \<Rightarrow>
                     seq (fs_op (write_file (dev_working_dir dev @ [''model.onnx'']) model))
                       (ret (dev_working_dir dev @ [''model.onnx''])))
             (TIOnnxruntimeModel_init L)))"

definition compute_model_latency :: "libs \<Rightarrow> ti_model \<Rightarrow> py_error + rat" where
  \<comment> \<open>\<^verbatim>\<open>float(np.mean(times)) / ti_model.batch_size\<close>; the timed runs themselves are
      wall-clock measurements and enter as their mean\<close>
  "compute_model_latency L tm =
     (case batch_size tm of
        Inl err \<Rightarrow> Inl err
      | Inr b \<Rightarrow> if b = 0 then Inl ZeroDivisionError
                 else Inr (fdiv (np_mean_times L) (float_of_int b)))"

definition with_latency :: "ti_stats \<Rightarrow> rat \<Rightarrow> latency_report" where
  \<comment> \<open>\<^verbatim>\<open>stats["latency"] = latency\<close> and
      \<^verbatim>\<open>stats["ORT_overhead_ms"] = latency - stats["total_ms"]\<close>\<close>
  "with_latency stats lat =
     ti_stats.extend stats
       (latency_report.fields lat (fsub lat (total_ms stats)))"

definition dev_measure_latency ::
  "libs \<Rightarrow> device_server \<Rightarrow> blob \<Rightarrow> (latency_report \<times> bool) action" where
  \<comment> \<open>\<^verbatim>\<open>DeviceLatencyServer.measure_latency(model)\<close>; the flag is \<^verbatim>\<open>_reboot_on_exit\<close>,
      set together with the delayed shutdown\<close>
  "dev_measure_latency L dev model =
     bind (create_ti_model L dev model)
       (\<lambda>ti_model.
          bind (lift (compute_model_latency L ti_model))
            (\<lambda>lat.
               bind (lift (collect_ti_stats (get_TI_benchmark_data L)))
                 (\<lambda>stats. ret (with_latency stats lat, reboot_after_measure dev))))"

section \<open>Notions used to state properties\<close>

definition discovered :: "raw_stats \<Rightarrow> string set" where
  \<comment> \<open>the subgraph ids for which a key \<^verbatim>\<open>ts:subgraph_<id>_proc_start\<close> exists\<close>
  "discovered raw = {sid. sg_key sid ''_proc_start'' \<in> fst ` set raw}"

definition sums_each_subgraph_once :: "raw_stats \<Rightarrow> bool" where
  \<comment> \<open>the three accelerator entries of the report are the sums of the windows over the
      set of discovered ids, in milliseconds\<close>
  "sums_each_subgraph_once raw =
     (case collect_ti_stats raw of
        Inl err \<Rightarrow> True
      | Inr st \<Rightarrow>
          NPU_execution_ms st = int_truediv (sum (sg_window raw ''_proc'') (discovered raw)) (10 ^ 6)
        \<and> NPU_copy_input_ms st = int_truediv (sum (sg_window raw ''_copy_in'') (discovered raw)) (10 ^ 6)
        \<and> NPU_copy_output_ms st = int_truediv (sum (sg_window raw ''_copy_out'') (discovered raw)) (10 ^ 6))"

fun np_num :: "np_value \<Rightarrow> rat option" where
  \<comment> \<open>the number an element of a boolean, integer or float array is equal to\<close>
  "np_num (NpBool b) = Some (if b then 1 else 0)"
| "np_num (NpInt i) = Some (of_int i)"
| "np_num (NpFloat x) = Some x"
| "np_num (NpInf positive) = None"
| "np_num (NpOther name i) = None"

definition filled_with :: "int \<Rightarrow> tensor \<Rightarrow> bool" where
  \<comment> \<open>every element of the tensor is equal to \<open>v\<close>, and there are as many as the shape says\<close>
  "filled_with v t =
     (length (t_data t) = nat (prod_list (t_shape t))
      \<and> list_all (\<lambda>x. np_num x = Some (of_int v)) (t_data t))"

definition declaration_of :: "graph_input list \<Rightarrow> string \<Rightarrow> graph_input" where
  \<comment> \<open>the declaration a name of the inputs stands for: the last one of that name\<close>
  "declaration_of gs name = last (filter (\<lambda>g. gi_name g = name) gs)"


definition new_events :: "state \<Rightarrow> state \<Rightarrow> event list" where
  \<comment> \<open>the events between two states of one run\<close>
  "new_events s s' = drop (length (log s)) (log s')"

definition silent :: "'a action \<Rightarrow> bool" where
  \<comment> \<open>a step that records no event\<close>
  "silent m = (\<forall>s. log (snd (m s)) = log s)"

definition emits_only :: "event set \<Rightarrow> 'a action \<Rightarrow> bool" where
  \<comment> \<open>a step that records only events of the set\<close>
  "emits_only A m = (\<forall>s. \<exists>evs. log (snd (m s)) = log s @ evs \<and> set evs \<subseteq> A)"

fun occurs_before :: "(event \<Rightarrow> bool) \<Rightarrow> (event \<Rightarrow> bool) \<Rightarrow> event list \<Rightarrow> bool" where
  \<comment> \<open>every event satisfying \<open>Q\<close> has an event satisfying \<open>P\<close> before it\<close>
  "occurs_before P Q [] = True"
| "occurs_before P Q (e # es) =
     (if Q e then False else if P e then True else occurs_before P Q es)"

definition is_worker_spawned :: "event \<Rightarrow> bool" where
  "is_worker_spawned e = (case e of WorkerSpawned a \<Rightarrow> True | _ \<Rightarrow> False)"

definition is_session_opened :: "event \<Rightarrow> bool" where
  "is_session_opened e = (case e of SessionOpened opts \<Rightarrow> True | _ \<Rightarrow> False)"

definition no_value_error :: "'a action \<Rightarrow> bool" where
  \<comment> \<open>a step that raises no \<^verbatim>\<open>ValueError\<close>\<close>
  "no_value_error m = (\<forall>s v. fst (m s) \<noteq> Inl (ValueError v))"

definition worker_trace :: "compile_args \<Rightarrow> options \<Rightarrow> event list \<Rightarrow> bool" where
  \<comment> \<open>the shapes the events of one \<^verbatim>\<open>TICompiler.compile\<close> call can take: nothing, a
      shape inference that did not return, or shape inference (unless disabled), the
      session opened with the given options, calibration runs and the copy of the model\<close>
  "worker_trace a opts w =
     (w = []
      \<or> (\<not> ca_disable_shape_inference a \<and> w = [ShapeInferenceStarted (ca_model_path a)])
      \<or> (\<exists>ps rest.
            w = (if ca_disable_shape_inference a then []
                 else [ShapeInferenceStarted (ca_model_path a),
                       ShapeInferenceDone (ca_model_path a)])
                @ SessionOpened opts # map CalibrationRun ps @ rest
          \<and> set rest \<subseteq> {ModelCopied}))"

definition basic_cfg :: TICalibrationCfg where
  \<comment> \<open>\<^verbatim>\<open>TICalibrationCfg(accuracy_level=TIAccuracyLevel.BASIC, calibration_iterations=1)\<close>\<close>
  "basic_cfg = (TICalibrationCfg_of BASIC)\<lparr>calibration_iterations := 1\<rparr>"

definition advanced_cfg :: TICalibrationCfg where
  \<comment> \<open>the \<^verbatim>\<open>TICalibrationCfg\<close> of the branch with calibration data\<close>
  "advanced_cfg =
     (TICalibrationCfg_of ADVANCED)
       \<lparr>calibration_iterations := 10, pre_batchnorm_fold := True,
        activation_clipping := True, weight_clipping := True, bias_calibration := True\<rparr>"


definition example_stats :: ti_stats where
  "example_stats =
     \<lparr>total_ms = 7378697629483821 / 73786976294838206464, ddr_read_ms = 0, ddr_write_ms = 0,
      NPU_execution_ms = 3984496719921263 / 147573952589676412928,
      NPU_copy_input_ms = 0, NPU_copy_output_ms = 0,
      total_execution_ms = 7378697629483821 / 73786976294838206464,
      CPU_execution_ms = 2693224634761595 / 36893488147419103232\<rparr>"

definition decomposition_exact :: "raw_stats \<Rightarrow> bool" where
  "decomposition_exact raw =
     (case collect_ti_stats raw of Inl err \<Rightarrow> True
      | Inr st \<Rightarrow> total_execution_ms st = fadd (NPU_execution_ms st) (CPU_execution_ms st))"

definition two_subgraphs :: raw_stats where
  "two_subgraphs =
     [(''ts:run_start'', 1000), (''ts:run_end'', 9000),
      (''ddr:read_start'', 0), (''ddr:read_end'', 64),
      (''ddr:write_start'', 0), (''ddr:write_end'', 32),
      (''ts:subgraph_0_proc_start'', 1200), (''ts:subgraph_0_proc_end'', 3200),
      (''ts:subgraph_0_copy_in_start'', 1100), (''ts:subgraph_0_copy_in_end'', 1200),
      (''ts:subgraph_0_copy_out_start'', 3200), (''ts:subgraph_0_copy_out_end'', 3500),
      (''ts:subgraph_1_proc_start'', 5000), (''ts:subgraph_1_proc_end'', 8000),
      (''ts:subgraph_1_copy_in_start'', 4600), (''ts:subgraph_1_copy_in_end'', 5000),
      (''ts:subgraph_1_copy_out_start'', 8000), (''ts:subgraph_1_copy_out_end'', 8500)]"

definition stray_key_counters :: raw_stats where
  \<comment> \<open>one subgraph with a processing window of 100 ns, and one more key that ends in
      \<^verbatim>\<open>proc_start\<close>\<close>
  "stray_key_counters =
     [(''ts:run_start'', 0), (''ts:run_end'', 1000),
      (''ddr:read_start'', 0), (''ddr:read_end'', 0),
      (''ddr:write_start'', 0), (''ddr:write_end'', 0),
      (''ts:subgraph_0_proc_start'', 200), (''ts:subgraph_0_proc_end'', 300),
      (''ts:subgraph_0_copy_in_start'', 100), (''ts:subgraph_0_copy_in_end'', 200),
      (''ts:subgraph_0_copy_out_start'', 300), (''ts:subgraph_0_copy_out_end'', 400),
      (''xx:subgraph_0_proc_start'', 0)]"

definition two_subgraphs_stats :: ti_stats where
  "two_subgraphs_stats =
     to_ms \<lparr>total_ns = 8000, ddr_read_ns = 64, ddr_write_ns = 32,
            NPU_execution_acc = fsum [2000, 3000],
            NPU_copy_input_acc = fsum [100, 400],
            NPU_copy_output_acc = fsum [300, 500]\<rparr>"

definition example_model :: onnx_model where
  "example_model =
     \<lparr>graph_inputs = [\<lparr>gi_name = ''x'', gi_shape = [DimValue 1, DimValue 3], gi_elem_type = 1\<rparr>],
      graph_body = ''net''\<rparr>"

definition example_libs :: libs where
  "example_libs =
     \<lparr>tensor_dtype_to_np_dtype =
        (\<lambda>t. if t = 1 then Some (np_float 32) else if t = 9 then Some np_bool else None),
      np_dtype_of_name = (\<lambda>name. if name = ''float32'' then Some (np_float 32) else None),
      np_wraps = False,
      infer_shapes = Some,
      tidl_compile = (\<lambda>m opts. Some [(''net.bin'', Bytes ''tidl'')]),
      tidl_run = (\<lambda>f. True),
      environ_TIDL_TOOLS_PATH = Some ''/opt/tidl_tools'',
      available_providers = [''TIDLCompilationProvider'', ''CPUExecutionProvider''],
      measure_latency_remote = (\<lambda>b. Some [(''latency'', 1)]),
      ort_session_inputs = (\<lambda>b p. Some [(''x'', ''tensor(float)'', [1, 3])]),
      np_mean_times = 1 / 1024,
      get_TI_benchmark_data = two_subgraphs\<rparr>"

definition example_device :: device_server where
  "example_device = \<lparr>dev_working_dir = [''working_dir''], reboot_after_measure = False\<rparr>"

definition empty_state :: state where
  "empty_state = \<lparr>files = [], log = []\<rparr>"

definition example_report :: latency_report where
  "example_report = with_latency two_subgraphs_stats (fdiv (1 / 1024) (float_of_int 1))"






definition example_server :: main_server where
  "example_server = \<lparr>srv_working_dir = [''working_dir''], srv_tensor_bits = TENSOR_8_BITS\<rparr>"

definition fresh_tree :: state where
  \<comment> \<open>the working tree after a reset, with the model persisted\<close>
  "fresh_tree =
     \<lparr>files = [([''working_dir''], Dir),
               ([''working_dir'', ''artifacts''], Dir),
               ([''working_dir'', ''calibration_data''], Dir),
               ([''working_dir'', ''model.onnx''], File (Onnx example_model))],
      log = []\<rparr>"

definition reset_tree :: state where
  \<comment> \<open>the working tree as \<^verbatim>\<open>_cleanup_working_dir\<close> leaves it\<close>
  "reset_tree =
     \<lparr>files = [([''working_dir''], Dir),
               ([''working_dir'', ''artifacts''], Dir),
               ([''working_dir'', ''calibration_data''], Dir)],
      log = []\<rparr>"

definition failing_shape_inference :: libs where
  \<comment> \<open>libraries whose shape inference raises\<close>
  "failing_shape_inference = example_libs\<lparr>infer_shapes := (\<lambda>m. None)\<rparr>"

definition feed_of :: "int \<Rightarrow> feed" where
  \<comment> \<open>the synthetic feed of sample \<open>i\<close> for the example model\<close>
  "feed_of i =
     [(''x'', \<lparr>t_shape = [1, 3], t_dtype = np_float 32, t_data = replicate 3 (NpFloat (of_int i))\<rparr>)]"

definition synthetic_files :: fs where
  \<comment> \<open>the tree after the model is persisted and two synthetic samples are generated\<close>
  "synthetic_files =
     [([''working_dir''], Dir),
      ([''working_dir'', ''artifacts''], Dir),
      ([''working_dir'', ''calibration_data''], Dir),
      ([''working_dir'', ''model.onnx''], File (Onnx example_model)),
      ([''working_dir'', ''calibration_data'', ''fake_calibration_data_1.pickle''],
         File (Pickle (feed_of 1))),
      ([''working_dir'', ''calibration_data'', ''fake_calibration_data_2.pickle''],
         File (Pickle (feed_of 2)))]"

definition real_archive :: blob where
  \<comment> \<open>a calibration archive with one real sample\<close>
  "real_archive = Zip [([''real_0.pickle''], Some (Pickle (feed_of 7)))]"

definition other_names_archive :: blob where
  \<comment> \<open>an archive whose members have other names or lie in a subdirectory\<close>
  "other_names_archive =
     Zip [([''notes.txt''], Some (Bytes ''n'')),
          ([''samples'', ''a.pickle''], Some (Pickle (feed_of 7)))]"

definition pickle_directory_archive :: blob where
  \<comment> \<open>an archive whose only member is a file \<^verbatim>\<open>a.txt\<close> in a directory \<^verbatim>\<open>x.pickle\<close>\<close>
  "pickle_directory_archive = Zip [([''x.pickle'', ''a.txt''], Some (Bytes ''n''))]"

definition mask_model :: onnx_model where
  \<comment> \<open>a model with a boolean input and an input with a symbolic batch dimension\<close>
  "mask_model =
     \<lparr>graph_inputs =
        [\<lparr>gi_name = ''mask'', gi_shape = [DimValue 2], gi_elem_type = 9\<rparr>,
         \<lparr>gi_name = ''image'', gi_shape = [DimParam ''batch'', DimValue 3], gi_elem_type = 1\<rparr>],
      graph_body = ''net''\<rparr>"

definition mask_tree :: state where
  "mask_tree = \<lparr>files = [([''m.onnx''], File (Onnx mask_model)), ([''out''], Dir)], log = []\<rparr>"

definition mask_sample :: "int \<Rightarrow> feed" where
  \<comment> \<open>what the generator writes for this model, whatever the index of the sample\<close>
  "mask_sample i =
     [(''mask'', \<lparr>t_shape = [2], t_dtype = np_bool, t_data = [NpBool True, NpBool True]\<rparr>),
      (''image'', \<lparr>t_shape = [0, 3], t_dtype = np_float 32, t_data = []\<rparr>)]"

section \<open>Rounding to binary64\<close>

lemma round_half_even_error: "\<bar>of_int (round_half_even y) - y\<bar> \<le> 1 / 2"
proof -
  have "of_int \<lfloor>y\<rfloor> \<le> y" "y < of_int \<lfloor>y\<rfloor> + 1"
    by linarith+
  then show ?thesis
    by (auto simp: round_half_even_def Let_def abs_le_iff)
qed

lemma bitlen_powi_bounds:
  assumes "0 < (p::int)"
  shows "(2::rat) powi (bitlen p - 1) \<le> of_int p" "of_int p < (2::rat) powi (bitlen p)"
proof -
  from assms have b1: "1 \<le> bitlen p"
    using bitlen_eq_zero_iff [of p] bitlen_nonneg [of p] by linarith
  have "(2::int) ^ nat (bitlen p - 1) \<le> p" "p < 2 ^ nat (bitlen p)"
    using bitlen_bounds [OF assms] by auto
  then have "(of_int ((2::int) ^ nat (bitlen p - 1)) :: rat) \<le> of_int p"
    "(of_int p :: rat) < of_int (2 ^ nat (bitlen p))"
    by (simp_all only: of_int_le_iff of_int_less_iff)
  then show "(2::rat) powi (bitlen p - 1) \<le> of_int p" "of_int p < (2::rat) powi (bitlen p)"
    using b1 by (simp_all add: power_int_def)
qed

lemma fexp_lower: 
  assumes "x \<noteq> 0"
  shows "2 powi (fexp x) \<le> \<bar>x\<bar>"
proof -
  obtain p q where pq: "quotient_of \<bar>x\<bar> = (p, q)"
    by (cases "quotient_of \<bar>x\<bar>")
  then have q: "0 < q" and x: "\<bar>x\<bar> = of_int p / of_int q"
    using quotient_of_denom_pos [OF pq] quotient_of_div [OF pq] by auto
  from assms have "0 < \<bar>x\<bar>" by simp
  with x q have "0 < (of_int p :: rat)"
    by (simp add: zero_less_divide_iff)
  then have p: "0 < p" by simp
  define d where "d = bitlen p - bitlen q"
  show ?thesis
  proof (cases "2 powi d \<le> \<bar>x\<bar>")
    case True
    then show ?thesis by (simp add: fexp_def pq d_def)
  next
    case False
    then have e: "fexp x = d - 1" by (simp add: fexp_def pq d_def)
    have lo: "(2::rat) powi (bitlen p - 1) \<le> of_int p" using bitlen_powi_bounds(1) [OF p] .
    have hi: "of_int q < (2::rat) powi (bitlen q)" using bitlen_powi_bounds(2) [OF q] .
    have "(2::rat) powi (d - 1) * of_int q \<le> 2 powi (d - 1) * 2 powi (bitlen q)"
      using hi by (intro mult_left_mono) auto
    also have "\<dots> = 2 powi (bitlen p - 1)"
      by (simp add: d_def power_int_add [symmetric])
    also have "\<dots> \<le> of_int p" by (rule lo)
    finally have "(2::rat) powi (d - 1) \<le> of_int p / of_int q"
      using q by (simp add: pos_le_divide_eq)
    then show ?thesis by (simp add: e x)
  qed
qed

lemma round_double_error: "\<bar>round_double x - x\<bar> \<le> \<bar>x\<bar> / 2 ^ 53"
proof (cases "x = 0")
  case True
  then show ?thesis by (simp add: round_double_def)
next
  case False
  define ulp :: rat where "ulp = 2 powi (fexp x - 52)"
  have ulp_pos: "0 < ulp" by (simp add: ulp_def)
  have rd: "round_double x = of_int (round_half_even (x / ulp)) * ulp"
    using False by (simp add: round_double_def ulp_def Let_def)
  have "round_double x - x = (of_int (round_half_even (x / ulp)) - x / ulp) * ulp"
    using ulp_pos by (simp add: rd algebra_simps)
  then have "\<bar>round_double x - x\<bar> = \<bar>of_int (round_half_even (x / ulp)) - x / ulp\<bar> * ulp"
    using ulp_pos by (simp add: abs_mult)
  also have "\<dots> \<le> (1 / 2) * ulp"
    using round_half_even_error [of "x / ulp"] ulp_pos by (intro mult_right_mono) auto
  also have "\<dots> = 2 powi (fexp x) / 2 ^ 53"
    by (simp add: ulp_def power_int_diff)
  also have "\<dots> \<le> \<bar>x\<bar> / 2 ^ 53"
    using fexp_lower [OF False] by (intro divide_right_mono) auto
  finally show ?thesis .
qed

lemma round_double_neg: "x < 0 \<Longrightarrow> round_double x < 0"
proof -
  assume x: "x < 0"
  have "round_double x \<le> x + \<bar>x\<bar> / 2 ^ 53"
    using round_double_error [of x] by linarith
  also have "\<dots> < 0"
  proof -
    have "\<bar>x\<bar> / 2 ^ 53 < \<bar>x\<bar>" using x by simp
    then show ?thesis using x by linarith
  qed
  finally show ?thesis .
qed

section \<open>Statistics aggregation\<close>

lemma window_Inr:
  "window raw e s = Inr d \<Longrightarrow> d = counter raw e - counter raw s \<and> e \<in> fst ` set raw \<and> s \<in> fst ` set raw"
  by (auto simp: window_def getitem_def counter_def split: option.splits dest: map_of_SomeD intro: rev_image_eqI)

lemma accumulate_Inr:
  "accumulate raw sids st = Inr st' \<Longrightarrow>
     total_ns st' = total_ns st \<and> ddr_read_ns st' = ddr_read_ns st \<and> ddr_write_ns st' = ddr_write_ns st \<and>
     NPU_execution_acc st' =
       foldl (\<lambda>acc d. fadd acc (float_of_int d)) (NPU_execution_acc st) (map (sg_window raw ''_proc'') sids) \<and>
     NPU_copy_input_acc st' =
       foldl (\<lambda>acc d. fadd acc (float_of_int d)) (NPU_copy_input_acc st) (map (sg_window raw ''_copy_in'') sids) \<and>
     NPU_copy_output_acc st' =
       foldl (\<lambda>acc d. fadd acc (float_of_int d)) (NPU_copy_output_acc st) (map (sg_window raw ''_copy_out'') sids)"
proof (induction sids arbitrary: st)
  case Nil
  then show ?case by simp
next
  case (Cons sid sids)
  from Cons.prems obtain d_proc d_in d_out where
    w: "window raw (sg_key sid ''_proc_end'') (sg_key sid ''_proc_start'') = Inr d_proc"
       "window raw (sg_key sid ''_copy_in_end'') (sg_key sid ''_copy_in_start'') = Inr d_in"
       "window raw (sg_key sid ''_copy_out_end'') (sg_key sid ''_copy_out_start'') = Inr d_out"
    and rest: "accumulate raw sids
            (st\<lparr>NPU_execution_acc := fadd (NPU_execution_acc st) (float_of_int d_proc),
                NPU_copy_input_acc := fadd (NPU_copy_input_acc st) (float_of_int d_in),
                NPU_copy_output_acc := fadd (NPU_copy_output_acc st) (float_of_int d_out)\<rparr>) = Inr st'"
    by (auto split: sum.splits)
  have d: "d_proc = sg_window raw ''_proc'' sid" "d_in = sg_window raw ''_copy_in'' sid"
    "d_out = sg_window raw ''_copy_out'' sid"
    using w by (auto dest!: window_Inr simp: sg_window_def)
  show ?case
    using Cons.IH [OF rest] by (simp add: d)
qed

lemma accumulate_keys:
  "accumulate raw sids st = Inr st' \<Longrightarrow> sid \<in> set sids \<Longrightarrow> 
     sg_key sid ''_proc_start'' \<in> fst ` set raw \<and> sg_key sid ''_proc_end'' \<in> fst ` set raw"
proof (induction sids arbitrary: st)
  case Nil
  then show ?case by simp
next
  case (Cons a sids)
  then show ?case
    by (auto split: sum.splits dest: window_Inr)
qed

lemma slice_sg_key: "slice_12_m11 (sg_key sid ''_proc_start'') = sid"
  by (simp add: slice_12_m11_def sg_key_def)

lemma endswith_sg_key: "endswith (sg_key sid ''_proc_start'') ''proc_start''"
  by (simp add: endswith_def sg_key_def)

lemma key_discovered: "sg_key sid ''_proc_start'' \<in> fst ` set raw \<Longrightarrow> sid \<in> set (subgraph_ids raw)"
proof -
  assume "sg_key sid ''_proc_start'' \<in> fst ` set raw"
  then have "sg_key sid ''_proc_start'' \<in> set (filter (\<lambda>k. endswith k ''proc_start'') (map fst raw))"
    by (simp add: endswith_sg_key)
  then have "slice_12_m11 (sg_key sid ''_proc_start'') \<in> set (subgraph_ids raw)"
    unfolding subgraph_ids_def set_map by (rule imageI)
  then show ?thesis by (simp add: slice_sg_key)
qed

lemma collect_ti_stats_Inr:
  assumes "collect_ti_stats raw = Inr st"
  obtains acc where "accumulate raw (subgraph_ids raw)
             \<lparr>total_ns = counter raw ''ts:run_end'' - counter raw ''ts:run_start'',
              ddr_read_ns = counter raw ''ddr:read_end'' - counter raw ''ddr:read_start'',
              ddr_write_ns = counter raw ''ddr:write_end'' - counter raw ''ddr:write_start'',
              NPU_execution_acc = 0, NPU_copy_input_acc = 0, NPU_copy_output_acc = 0\<rparr> = Inr acc"
     and "st = to_ms acc"
  using assms unfolding collect_ti_stats_def
  by (auto split: sum.splits dest!: window_Inr)


lemma example_windows:
  "window example_counters ''ts:run_end'' ''ts:run_start'' = Inr 100"
  "window example_counters ''ddr:read_end'' ''ddr:read_start'' = Inr 0"
  "window example_counters ''ddr:write_end'' ''ddr:write_start'' = Inr 0"
  by (simp_all add: window_def getitem_def example_counters_def)

lemma example_ids: "subgraph_ids example_counters = [''0'']"
  by (simp add: subgraph_ids_def example_counters_def endswith_def slice_12_m11_def)

lemma example_accumulate:
  "accumulate example_counters [''0''] st =
     Inr (st\<lparr>NPU_execution_acc := fadd (NPU_execution_acc st) (float_of_int 27),
             NPU_copy_input_acc := fadd (NPU_copy_input_acc st) (float_of_int 0),
             NPU_copy_output_acc := fadd (NPU_copy_output_acc st) (float_of_int 0)\<rparr>)"
  by (simp add: window_def getitem_def example_counters_def sg_key_def)

lemma example_to_ms:
  "to_ms \<lparr>total_ns = 100, ddr_read_ns = 0, ddr_write_ns = 0,
          NPU_execution_acc = fadd 0 (float_of_int 27),
          NPU_copy_input_acc = fadd 0 (float_of_int 0),
          NPU_copy_output_acc = fadd 0 (float_of_int 0)\<rparr> = example_stats"
  unfolding example_stats_def by code_simp

lemma example_stats_eq: "collect_ti_stats example_counters = Inr example_stats"
  unfolding collect_ti_stats_def example_windows example_ids example_accumulate
  by (simp add: example_to_ms)

lemma example_float_sum:
  "fadd (3984496719921263 / 147573952589676412928) (2693224634761595 / 36893488147419103232)
     \<noteq> 7378697629483821 / 73786976294838206464"
  by code_simp

text \<open>
  Claim C1, as stated, fails. With a run window of 100 ns and one subgraph whose
  processing window is 27 ns, \<^verbatim>\<open>total_execution_ms\<close> is the float \<open>0.0001\<close> while
  \<^verbatim>\<open>NPU_execution_ms + CPU_execution_ms\<close> is \<open>0.00010000000000000002\<close>: the derived
  \<^verbatim>\<open>CPU_execution_ms\<close> is a rounded difference, and adding it back rounds again.
\<close>

theorem C1_exact_identity_counterexample: "\<not> decomposition_exact example_counters"
  unfolding decomposition_exact_def example_stats_eq
  using example_float_sum by (simp add: example_stats_def)

lemma to_ms_derived:
  "CPU_execution_ms (to_ms acc) = fsub (total_execution_ms (to_ms acc)) (NPU_execution_ms (to_ms acc))"
  "total_execution_ms (to_ms acc) =
     fsub (fsub (total_ms (to_ms acc)) (NPU_copy_input_ms (to_ms acc))) (NPU_copy_output_ms (to_ms acc))"
  by (simp_all add: to_ms_def Let_def)

lemma sub_add_error:
  fixes a n :: rat
  shows "\<bar>a - (n + fsub a n)\<bar> \<le> \<bar>a - n\<bar> / 2 ^ 53"
    and "\<bar>a - fadd n (fsub a n)\<bar> \<le> (\<bar>a\<bar> + 2 * \<bar>a - n\<bar>) / 2 ^ 53"
proof -
  define c where "c = fsub a n"
  define u :: rat where "u = 1 / 2 ^ 53"
  have u: "0 \<le> u" "u \<le> 1" by (simp_all add: u_def)
  have e1: "\<bar>c - (a - n)\<bar> \<le> \<bar>a - n\<bar> * u"
    using round_double_error [of "a - n"] by (simp add: c_def fsub_def u_def)
  have e2: "\<bar>fadd n c - (n + c)\<bar> \<le> \<bar>n + c\<bar> * u"
    using round_double_error [of "n + c"] by (simp add: fadd_def u_def)
  have "a - (n + c) = - (c - (a - n))" by simp
  then have ex: "\<bar>a - (n + c)\<bar> \<le> \<bar>a - n\<bar> * u"
    using e1 by (metis abs_minus_cancel)
  then show "\<bar>a - (n + fsub a n)\<bar> \<le> \<bar>a - n\<bar> / 2 ^ 53"
    by (simp add: c_def u_def)
  have "\<bar>n + c\<bar> \<le> \<bar>a\<bar> + \<bar>a - n\<bar> * u"
    using ex by linarith
  then have "\<bar>n + c\<bar> * u \<le> (\<bar>a\<bar> + \<bar>a - n\<bar> * u) * u"
    using u by (intro mult_right_mono) auto
  also have "\<dots> = \<bar>a\<bar> * u + (\<bar>a - n\<bar> * u) * u"
    by (simp add: algebra_simps)
  also have "(\<bar>a - n\<bar> * u) * u \<le> (\<bar>a - n\<bar> * u) * 1"
    using u by (intro mult_left_mono) auto
  finally have e3: "\<bar>n + c\<bar> * u \<le> \<bar>a\<bar> * u + \<bar>a - n\<bar> * u"
    by simp
  have "\<bar>a - fadd n c\<bar> \<le> \<bar>a - (n + c)\<bar> + \<bar>fadd n c - (n + c)\<bar>"
    by linarith
  also have "\<dots> \<le> \<bar>a - n\<bar> * u + (\<bar>a\<bar> * u + \<bar>a - n\<bar> * u)"
    using ex e2 e3 by linarith
  also have "\<dots> = (\<bar>a\<bar> + 2 * \<bar>a - n\<bar>) * u"
    by (simp add: algebra_simps)
  finally show "\<bar>a - fadd n (fsub a n)\<bar> \<le> (\<bar>a\<bar> + 2 * \<bar>a - n\<bar>) / 2 ^ 53"
    by (simp add: c_def u_def)
qed

text \<open>
  Claim C1, amended. Whenever the aggregation returns a report, \<^verbatim>\<open>CPU_execution_ms\<close> is
  the float difference \<^verbatim>\<open>total_execution_ms - NPU_execution_ms\<close> (derived, not measured),
  \<^verbatim>\<open>total_execution_ms\<close> is \<^verbatim>\<open>total_ms - NPU_copy_input_ms - NPU_copy_output_ms\<close> in
  float arithmetic, and the identity holds up to rounding: the exact sum of
  \<^verbatim>\<open>NPU_execution_ms\<close> and \<^verbatim>\<open>CPU_execution_ms\<close> differs from \<^verbatim>\<open>total_execution_ms\<close> by at most
  \<open>\<bar>total_execution_ms - NPU_execution_ms\<bar> / 2^53\<close>, and their float sum by at most
  \<open>(\<bar>total_execution_ms\<bar> + 2 * \<bar>total_execution_ms - NPU_execution_ms\<bar>) / 2^53\<close>.
\<close>

theorem C1_decomposition_up_to_rounding:
  assumes "collect_ti_stats raw = Inr st"
  shows "CPU_execution_ms st = fsub (total_execution_ms st) (NPU_execution_ms st)
       \<and> total_execution_ms st =
           fsub (fsub (total_ms st) (NPU_copy_input_ms st)) (NPU_copy_output_ms st)
       \<and> \<bar>total_execution_ms st - (NPU_execution_ms st + CPU_execution_ms st)\<bar>
           \<le> \<bar>total_execution_ms st - NPU_execution_ms st\<bar> / 2 ^ 53
       \<and> \<bar>total_execution_ms st - fadd (NPU_execution_ms st) (CPU_execution_ms st)\<bar>
           \<le> (\<bar>total_execution_ms st\<bar> + 2 * \<bar>total_execution_ms st - NPU_execution_ms st\<bar>) / 2 ^ 53"
proof -
  from assms obtain acc where st: "st = to_ms acc"
    by (rule collect_ti_stats_Inr)
  have cpu: "CPU_execution_ms st = fsub (total_execution_ms st) (NPU_execution_ms st)"
    unfolding st by (rule to_ms_derived(1))
  have te: "total_execution_ms st =
           fsub (fsub (total_ms st) (NPU_copy_input_ms st)) (NPU_copy_output_ms st)"
    unfolding st by (rule to_ms_derived(2))
  show ?thesis
    using sub_add_error [of "total_execution_ms st" "NPU_execution_ms st"] te
    unfolding cpu [symmetric] by (simp add: cpu)
qed

theorem C1_decomposition_witness:
  "collect_ti_stats example_counters = Inr example_stats
   \<and> \<bar>total_execution_ms example_stats
        - fadd (NPU_execution_ms example_stats) (CPU_execution_ms example_stats)\<bar>
       \<le> (\<bar>total_execution_ms example_stats\<bar>
            + 2 * \<bar>total_execution_ms example_stats - NPU_execution_ms example_stats\<bar>) / 2 ^ 53"
  using C1_decomposition_up_to_rounding [OF example_stats_eq] example_stats_eq by blast

lemma rhe_of_int: "round_half_even (of_int k) = k"
  by (simp add: round_half_even_def)

lemma round_double_of_int:
  assumes "\<bar>n\<bar> < 2 ^ 53"
  shows "round_double (of_int n) = of_int n"
proof (cases "n = 0")
  case True
  then show ?thesis by (simp add: round_double_def)
next
  case False
  define x :: rat where "x = of_int n"
  define e where "e = fexp x"
  have x0: "x \<noteq> 0" using False by (simp add: x_def)
  have "(2::rat) powi e \<le> \<bar>x\<bar>" unfolding e_def by (rule fexp_lower [OF x0])
  also have "\<bar>x\<bar> < 2 powi 53"
  proof -
    have "(of_int \<bar>n\<bar> :: rat) < of_int (2 ^ 53)" using assms by (simp only: of_int_less_iff)
    then show ?thesis by (simp add: x_def)
  qed
  finally have "(2::rat) powi e < 2 powi 53" .
  then have "e < 53"
    by (rule power_int_le_imp_less_exp [rotated]) simp_all
  then have ulp: "(2::rat) powi (e - 52) = 1 / of_int (2 ^ nat (52 - e))"
    by (simp add: power_int_def field_simps)
  have "x / (2 powi (e - 52)) = of_int (n * 2 ^ nat (52 - e))"
    by (simp add: ulp x_def)
  then have "round_half_even (x / (2 powi (e - 52))) = n * 2 ^ nat (52 - e)"
    by (simp only: rhe_of_int)
  then have "round_double x = of_int (n * 2 ^ nat (52 - e)) * (1 / of_int (2 ^ nat (52 - e)))"
    using x0 by (simp add: round_double_def Let_def e_def [symmetric] ulp)
  then show ?thesis by (simp add: x_def)
qed

lemma fsum_exact_aux:
  assumes "\<forall>d\<in>set ds. 0 \<le> d" "0 \<le> k" "k + sum_list ds < 2 ^ 53"
  shows "foldl (\<lambda>acc d. fadd acc (float_of_int d)) (of_int k) ds = of_int (k + sum_list ds)"
  using assms
proof (induction ds arbitrary: k)
  case Nil
  then show ?case by simp
next
  case (Cons d ds)
  have s: "0 \<le> sum_list ds" using Cons.prems(1) by (simp add: sum_list_nonneg)
  have d: "0 \<le> d" using Cons.prems(1) by simp
  have "float_of_int d = of_int d"
    unfolding float_of_int_def using d s Cons.prems by (intro round_double_of_int) simp
  moreover have "round_double (of_int (k + d)) = of_int (k + d)"
    using d s Cons.prems by (intro round_double_of_int) simp
  ultimately have step: "fadd (of_int k) (float_of_int d) = of_int (k + d)"
    by (simp add: fadd_def)
  show ?case
    using Cons.IH [of "k + d"] Cons.prems d by (simp add: step add.assoc)
qed

lemma fsum_exact:
  "\<forall>d\<in>set ds. 0 \<le> d \<Longrightarrow> sum_list ds < 2 ^ 53 \<Longrightarrow> fsum ds = of_int (sum_list ds)"
  using fsum_exact_aux [of ds 0] by (simp add: fsum_def)


lemma to_ms_npu:
  "NPU_execution_ms (to_ms acc) = fdiv (NPU_execution_acc acc) (10 ^ 6)"
  "NPU_copy_input_ms (to_ms acc) = fdiv (NPU_copy_input_acc acc) (10 ^ 6)"
  "NPU_copy_output_ms (to_ms acc) = fdiv (NPU_copy_output_acc acc) (10 ^ 6)"
  by (simp_all add: to_ms_def Let_def)

lemma subgraph_ids_distinct:
  assumes keys: "distinct (map fst raw)"
    and wf: "\<forall>k\<in>fst ` set raw. endswith k ''proc_start'' \<longrightarrow> (\<exists>sid. k = sg_key sid ''_proc_start'')"
  shows "distinct (subgraph_ids raw)"
proof -
  let ?ks = "filter (\<lambda>k. endswith k ''proc_start'') (map fst raw)"
  have "inj_on slice_12_m11 (set ?ks)"
  proof (rule inj_onI)
    fix a b
    assume a: "a \<in> set ?ks" and b: "b \<in> set ?ks" and eq: "slice_12_m11 a = slice_12_m11 b"
    from a wf obtain sa where sa: "a = sg_key sa ''_proc_start''" by auto
    from b wf obtain sb where sb: "b = sg_key sb ''_proc_start''" by auto
    from eq have "sa = sb" unfolding sa sb slice_sg_key .
    then show "a = b" by (simp add: sa sb)
  qed
  moreover have "distinct ?ks" using keys by (rule distinct_filter)
  ultimately show ?thesis unfolding subgraph_ids_def by (simp add: distinct_map)
qed

lemma exact_sum_ms:
  assumes d: "distinct ids"
    and nonneg: "\<forall>sid\<in>set ids. 0 \<le> f sid"
    and bound: "sum f (set ids) < 2 ^ 53"
  shows "fdiv (fsum (map f ids)) (10 ^ 6) = int_truediv (sum f (set ids)) (10 ^ 6)"
proof -
  have s: "sum_list (map f ids) = sum f (set ids)"
    using d by (rule sum_list_distinct_conv_sum_set)
  have "fsum (map f ids) = of_int (sum_list (map f ids))"
    using nonneg bound by (intro fsum_exact) (simp_all add: s)
  then show ?thesis by (simp add: fdiv_def int_truediv_def s)
qed

text \<open>
  Claim C2, as stated, fails on the code: the ids are cut out of every key that ends in
  \<^verbatim>\<open>proc_start\<close>, whatever it begins with. With the counters of one subgraph \<^verbatim>\<open>0\<close>,
  whose processing window is 100 ns, and the further key \<^verbatim>\<open>xx:subgraph_0_proc_start\<close>,
  the id \<^verbatim>\<open>0\<close> is found twice and its windows are added twice: \<^verbatim>\<open>NPU_execution_ms\<close>
  is 0.0002, not 0.0001.
\<close>

lemma stray_key_windows:
  "window stray_key_counters ''ts:run_end'' ''ts:run_start'' = Inr 1000"
  "window stray_key_counters ''ddr:read_end'' ''ddr:read_start'' = Inr 0"
  "window stray_key_counters ''ddr:write_end'' ''ddr:write_start'' = Inr 0"
  by (simp_all add: window_def getitem_def stray_key_counters_def)

lemma stray_key_ids: "subgraph_ids stray_key_counters = [''0'', ''0'']"
  by (simp add: subgraph_ids_def stray_key_counters_def endswith_def slice_12_m11_def)

lemma stray_key_accumulate:
  "accumulate stray_key_counters [''0'', ''0''] st =
     Inr (st\<lparr>NPU_execution_acc :=
               fadd (fadd (NPU_execution_acc st) (float_of_int 100)) (float_of_int 100),
             NPU_copy_input_acc :=
               fadd (fadd (NPU_copy_input_acc st) (float_of_int 100)) (float_of_int 100),
             NPU_copy_output_acc :=
               fadd (fadd (NPU_copy_output_acc st) (float_of_int 100)) (float_of_int 100)\<rparr>)"
  by (simp add: window_def getitem_def stray_key_counters_def sg_key_def)

lemma stray_key_execution_ms:
  "\<exists>st. collect_ti_stats stray_key_counters = Inr st
      \<and> NPU_execution_ms st = round_double (200 / 10 ^ 6)"
proof -
  have "fsum [100, 100] = of_int (sum_list [100, 100])"
    by (rule fsum_exact) simp_all
  then have "fadd (fadd 0 (float_of_int 100)) (float_of_int 100) = 200"
    by (simp add: fsum_def)
  then show ?thesis
    unfolding collect_ti_stats_def stray_key_windows stray_key_ids stray_key_accumulate
    by (simp add: to_ms_npu fdiv_def)
qed

lemma stray_key_discovered: "discovered stray_key_counters = {''0''}"
proof -
  have "sid = ''0''" if "sid \<in> discovered stray_key_counters" for sid
  proof -
    from that have "sid \<in> set (subgraph_ids stray_key_counters)"
      unfolding discovered_def by (simp add: key_discovered)
    then show ?thesis by (simp add: stray_key_ids)
  qed
  moreover have "''0'' \<in> discovered stray_key_counters"
    by (simp add: discovered_def sg_key_def stray_key_counters_def)
  ultimately show ?thesis by blast
qed

lemma stray_key_rounded: "round_double (200 / 10 ^ 6) \<noteq> round_double (100 / 10 ^ 6)"
  by code_simp

theorem C2_stray_key_counterexample: "\<not> sums_each_subgraph_once stray_key_counters"
proof -
  from stray_key_execution_ms obtain st where
    st: "collect_ti_stats stray_key_counters = Inr st"
    and ms: "NPU_execution_ms st = round_double (200 / 10 ^ 6)"
    by blast
  have "sg_window stray_key_counters ''_proc'' ''0'' = 100"
    by (simp add: sg_window_def sg_key_def counter_def stray_key_counters_def)
  then have "int_truediv (sum (sg_window stray_key_counters ''_proc'') (discovered stray_key_counters)) (10 ^ 6)
      = round_double (100 / 10 ^ 6)"
    by (simp add: stray_key_discovered int_truediv_def)
  with ms stray_key_rounded show ?thesis
    by (simp add: sums_each_subgraph_once_def st)
qed

text \<open>
  Claim C2, amended. Let the counters be a dict (no key twice) in which every key that
  ends in \<^verbatim>\<open>proc_start\<close> has the form \<^verbatim>\<open>ts:subgraph_<id>_proc_start\<close>, as the keys of the
  accelerator runtime have. Whenever the aggregation returns a report, the ids it has
  found are exactly the ids for which such a key exists, each of them once, and each of
  \<^verbatim>\<open>NPU_execution_ms\<close>, \<^verbatim>\<open>NPU_copy_input_ms\<close> and \<^verbatim>\<open>NPU_copy_output_ms\<close> is the sum,
  accumulated as Python accumulates it, of the \<open>(end - start)\<close> windows of these ids,
  divided by \<open>10^6\<close>. When the windows are not negative and their sum is below \<open>2^53\<close>,
  the accumulation is exact: the entry is the sum of the windows over the set of
  these ids, divided by \<open>10^6\<close> and rounded once.
\<close>

theorem C2_sums_over_all_subgraphs:
  assumes "collect_ti_stats raw = Inr st"
    and "distinct (map fst raw)"
    and "\<forall>k\<in>fst ` set raw. endswith k ''proc_start'' \<longrightarrow> (\<exists>sid. k = sg_key sid ''_proc_start'')"
  shows "distinct (subgraph_ids raw) \<and> set (subgraph_ids raw) = discovered raw
       \<and> NPU_execution_ms st =
           fdiv (fsum (map (sg_window raw ''_proc'') (subgraph_ids raw))) (10 ^ 6)
       \<and> NPU_copy_input_ms st =
           fdiv (fsum (map (sg_window raw ''_copy_in'') (subgraph_ids raw))) (10 ^ 6)
       \<and> NPU_copy_output_ms st =
           fdiv (fsum (map (sg_window raw ''_copy_out'') (subgraph_ids raw))) (10 ^ 6)
       \<and> ((\<forall>sid\<in>discovered raw. 0 \<le> sg_window raw ''_proc'' sid)
            \<and> sum (sg_window raw ''_proc'') (discovered raw) < 2 ^ 53
          \<longrightarrow> NPU_execution_ms st =
                int_truediv (sum (sg_window raw ''_proc'') (discovered raw)) (10 ^ 6))
       \<and> ((\<forall>sid\<in>discovered raw. 0 \<le> sg_window raw ''_copy_in'' sid)
            \<and> sum (sg_window raw ''_copy_in'') (discovered raw) < 2 ^ 53
          \<longrightarrow> NPU_copy_input_ms st =
                int_truediv (sum (sg_window raw ''_copy_in'') (discovered raw)) (10 ^ 6))
       \<and> ((\<forall>sid\<in>discovered raw. 0 \<le> sg_window raw ''_copy_out'' sid)
            \<and> sum (sg_window raw ''_copy_out'') (discovered raw) < 2 ^ 53
          \<longrightarrow> NPU_copy_output_ms st =
                int_truediv (sum (sg_window raw ''_copy_out'') (discovered raw)) (10 ^ 6))"
proof -
  from assms(1) obtain acc where
    acc: "accumulate raw (subgraph_ids raw)
             \<lparr>total_ns = counter raw ''ts:run_end'' - counter raw ''ts:run_start'',
              ddr_read_ns = counter raw ''ddr:read_end'' - counter raw ''ddr:read_start'',
              ddr_write_ns = counter raw ''ddr:write_end'' - counter raw ''ddr:write_start'',
              NPU_execution_acc = 0, NPU_copy_input_acc = 0, NPU_copy_output_acc = 0\<rparr> = Inr acc"
    and st: "st = to_ms acc"
    by (rule collect_ti_stats_Inr)
  have ids: "set (subgraph_ids raw) = discovered raw"
    unfolding discovered_def using accumulate_keys [OF acc] key_discovered [of _ raw] by blast
  have d: "distinct (subgraph_ids raw)"
    using assms(2,3) by (rule subgraph_ids_distinct)
  have sums:
    "NPU_execution_acc acc = fsum (map (sg_window raw ''_proc'') (subgraph_ids raw))"
    "NPU_copy_input_acc acc = fsum (map (sg_window raw ''_copy_in'') (subgraph_ids raw))"
    "NPU_copy_output_acc acc = fsum (map (sg_window raw ''_copy_out'') (subgraph_ids raw))"
    using accumulate_Inr [OF acc] by (simp_all add: fsum_def)
  have ms:
    "NPU_execution_ms st = fdiv (fsum (map (sg_window raw ''_proc'') (subgraph_ids raw))) (10 ^ 6)"
    "NPU_copy_input_ms st = fdiv (fsum (map (sg_window raw ''_copy_in'') (subgraph_ids raw))) (10 ^ 6)"
    "NPU_copy_output_ms st = fdiv (fsum (map (sg_window raw ''_copy_out'') (subgraph_ids raw))) (10 ^ 6)"
    unfolding st to_ms_npu sums by simp_all
  have exact: "fdiv (fsum (map f (subgraph_ids raw))) (10 ^ 6)
                 = int_truediv (sum f (discovered raw)) (10 ^ 6)"
    if "\<forall>sid\<in>discovered raw. 0 \<le> f sid" "sum f (discovered raw) < 2 ^ 53" for f
    using exact_sum_ms [OF d, of f] that unfolding ids by simp
  show ?thesis
    using d ids ms exact by simp
qed

lemma two_subgraphs_windows:
  "window two_subgraphs ''ts:run_end'' ''ts:run_start'' = Inr 8000"
  "window two_subgraphs ''ddr:read_end'' ''ddr:read_start'' = Inr 64"
  "window two_subgraphs ''ddr:write_end'' ''ddr:write_start'' = Inr 32"
  by (simp_all add: window_def getitem_def two_subgraphs_def)

lemma two_subgraphs_ids: "subgraph_ids two_subgraphs = [''0'', ''1'']"
  by (simp add: subgraph_ids_def two_subgraphs_def endswith_def slice_12_m11_def)

lemma two_subgraphs_accumulate:
  "accumulate two_subgraphs [''0'', ''1''] st =
     Inr (st\<lparr>NPU_execution_acc :=
               fadd (fadd (NPU_execution_acc st) (float_of_int 2000)) (float_of_int 3000),
             NPU_copy_input_acc :=
               fadd (fadd (NPU_copy_input_acc st) (float_of_int 100)) (float_of_int 400),
             NPU_copy_output_acc :=
               fadd (fadd (NPU_copy_output_acc st) (float_of_int 300)) (float_of_int 500)\<rparr>)"
  by (simp add: window_def getitem_def two_subgraphs_def sg_key_def)

lemma two_subgraphs_eq: "collect_ti_stats two_subgraphs = Inr two_subgraphs_stats"
  unfolding collect_ti_stats_def two_subgraphs_windows two_subgraphs_ids two_subgraphs_accumulate
  by (simp add: two_subgraphs_stats_def fsum_def)

lemma two_subgraphs_sg_windows:
  "sg_window two_subgraphs ''_proc'' ''0'' = 2000"
  "sg_window two_subgraphs ''_proc'' ''1'' = 3000"
  "sg_window two_subgraphs ''_copy_in'' ''0'' = 100"
  "sg_window two_subgraphs ''_copy_in'' ''1'' = 400"
  "sg_window two_subgraphs ''_copy_out'' ''0'' = 300"
  "sg_window two_subgraphs ''_copy_out'' ''1'' = 500"
  by (simp_all add: sg_window_def sg_key_def counter_def two_subgraphs_def)

lemma two_subgraphs_keys: "distinct (map fst two_subgraphs)"
  by (simp add: two_subgraphs_def)

lemma two_subgraphs_well_formed:
  "\<forall>k\<in>fst ` set two_subgraphs. endswith k ''proc_start'' \<longrightarrow> (\<exists>sid. k = sg_key sid ''_proc_start'')"
proof -
  have "\<exists>sid. ''ts:subgraph_0_proc_start'' = sg_key sid ''_proc_start''"
    by (rule exI [of _ "''0''"]) (simp add: sg_key_def)
  moreover have "\<exists>sid. ''ts:subgraph_1_proc_start'' = sg_key sid ''_proc_start''"
    by (rule exI [of _ "''1''"]) (simp add: sg_key_def)
  ultimately show ?thesis
    by (simp add: two_subgraphs_def endswith_def)
qed

theorem C2_sums_witness:
  "collect_ti_stats two_subgraphs = Inr two_subgraphs_stats
   \<and> subgraph_ids two_subgraphs = [''0'', ''1'']
   \<and> discovered two_subgraphs = {''0'', ''1''}
   \<and> NPU_execution_ms two_subgraphs_stats = int_truediv 5000 (10 ^ 6)
   \<and> NPU_copy_input_ms two_subgraphs_stats = int_truediv 500 (10 ^ 6)
   \<and> NPU_copy_output_ms two_subgraphs_stats = int_truediv 800 (10 ^ 6)"
proof -
  note c2 = C2_sums_over_all_subgraphs [OF two_subgraphs_eq two_subgraphs_keys two_subgraphs_well_formed]
  from c2 have ids: "discovered two_subgraphs = {''0'', ''1''}"
    by (simp add: two_subgraphs_ids)
  from c2 show ?thesis
    unfolding ids by (simp add: two_subgraphs_eq two_subgraphs_ids two_subgraphs_sg_windows)
qed

section \<open>Steps and their results\<close>

lemmas act_defs = bind_def seq_def ret_def raise_def emit_def fs_op_def fs_read_def lift_def
  try_except_def on_exit_def

lemmas fs_defs = lookup_def exists_def is_dir_def is_file_def rmtree_def mkdir_def
  write_file_def read_file_def glob_def ancestors_def endswith_def

lemma bind_InrE:
  assumes "bind m f s = (Inr y, s'')"
  obtains x s' where "m s = (Inr x, s')" "f x s' = (Inr y, s'')"
  using assms by (auto simp: bind_def split: prod.splits sum.splits)

lemma seq_InrE:
  assumes "seq m k s = (Inr y, s'')"
  obtains s' where "m s = (Inr (), s')" "k s' = (Inr y, s'')"
  using assms unfolding seq_def by (auto elim!: bind_InrE)

lemma lift_Inr [simp]: "lift r s = (Inr x, s') \<longleftrightarrow> r = Inr x \<and> s' = s"
  by (auto simp: lift_def)

lemma ret_Inr [simp]: "ret x s = (Inr y, s') \<longleftrightarrow> y = x \<and> s' = s"
  by (auto simp: ret_def)

lemma fs_read_eq [simp]: "fs_read f s = (r, s') \<longleftrightarrow> r = Inr (f (files s)) \<and> s' = s"
  by (auto simp: fs_read_def)

section \<open>The conversion of a fill value by numpy\<close>

lemma round_to_of_int:
  assumes "\<bar>n\<bar> < 2 ^ p" and "0 < p"
  shows "round_to p (of_int n) = of_int n"
proof (cases "n = 0")
  case True
  then show ?thesis by (simp add: round_to_def)
next
  case False
  define x :: rat where "x = of_int n"
  define e where "e = fexp x"
  have x0: "x \<noteq> 0" using False by (simp add: x_def)
  have "(2::rat) powi e \<le> \<bar>x\<bar>" unfolding e_def by (rule fexp_lower [OF x0])
  also have "\<bar>x\<bar> < 2 powi (int p)"
  proof -
    have "(of_int \<bar>n\<bar> :: rat) < of_int (2 ^ p)" using assms by (simp only: of_int_less_iff)
    then show ?thesis by (simp add: x_def)
  qed
  finally have "(2::rat) powi e < 2 powi (int p)" .
  then have "e < int p"
    by (rule power_int_le_imp_less_exp [rotated]) simp_all
  then have ulp: "(2::rat) powi (e - (int p - 1)) = 1 / of_int (2 ^ nat (int p - 1 - e))"
    by (simp add: power_int_def field_simps)
  have "x / (2 powi (e - (int p - 1))) = of_int (n * 2 ^ nat (int p - 1 - e))"
    by (simp add: ulp x_def)
  then have "round_half_even (x / (2 powi (e - (int p - 1)))) = n * 2 ^ nat (int p - 1 - e)"
    by (simp only: rhe_of_int)
  then have "round_to p x
      = of_int (n * 2 ^ nat (int p - 1 - e)) * (1 / of_int (2 ^ nat (int p - 1 - e)))"
    using x0 by (simp add: round_to_def Let_def e_def [symmetric] ulp)
  then show ?thesis by (simp add: x_def)
qed

lemma np_cast_float_exact:
  assumes "\<bar>v\<bar> < 2 ^ np_precision bits"
  shows "np_cast wraps (np_float bits) v = Inr (NpFloat (of_int v))"
proof -
  have p: "0 < np_precision bits" "np_precision bits \<le> 53"
    "np_precision bits \<le> np_max_exponent bits" "np_max_exponent bits \<le> 1024"
    by (simp_all add: np_precision_def np_max_exponent_def)
  have "(2::int) ^ np_precision bits \<le> 2 ^ 53"
    using p(2) by (intro power_increasing) simp_all
  with assms have "\<bar>v\<bar> < 2 ^ 53" by linarith
  then have d: "round_double (of_int v) = of_int v" by (rule round_double_of_int)
  have y: "round_to (np_precision bits) (of_int v) = of_int v"
    using assms p(1) by (rule round_to_of_int)
  have "(2::int) ^ np_precision bits \<le> 2 ^ np_max_exponent bits"
    using p(3) by (intro power_increasing) simp_all
  with assms have "\<bar>v\<bar> < 2 ^ np_max_exponent bits" by linarith
  then have small: "\<bar>of_int v :: rat\<bar> < 2 ^ np_max_exponent bits"
    by (metis of_int_abs of_int_less_iff of_int_numeral of_int_power)
  have "(2::rat) ^ np_max_exponent bits \<le> 2 ^ 1024"
    using p(4) by (intro power_increasing) simp_all
  with small have "\<bar>of_int v :: rat\<bar> < 2 ^ 1024" by linarith
  with small show ?thesis
    by (simp add: d y Let_def not_le [symmetric] del: not_le)
qed

lemma np_cast_bool: "np_cast wraps np_bool v = Inr (NpBool (v \<noteq> 0))"
  by simp

lemma np_cast_int_in_range:
  "- (2 ^ (bits - 1)) \<le> v \<Longrightarrow> v < 2 ^ (bits - 1) \<Longrightarrow> np_cast wraps (np_int bits) v = Inr (NpInt v)"
  by simp

lemma np_cast_uint_in_range:
  "0 \<le> v \<Longrightarrow> v < 2 ^ bits \<Longrightarrow> np_cast wraps (np_uint bits) v = Inr (NpInt v)"
  by simp

lemma np_full_Inr:
  assumes "np_full wraps v shape dtype = Inr t"
  obtains x where "np_cast wraps dtype v = Inr x"
    and "t = \<lparr>t_shape = shape, t_dtype = dtype, t_data = replicate (nat (prod_list shape)) x\<rparr>"
  using assms unfolding np_full_def by (auto split: if_splits sum.splits)

lemma np_full_float_one:
  "np_full wraps 1 [1, 3] (np_float 32)
     = Inr \<lparr>t_shape = [1, 3], t_dtype = np_float 32, t_data = replicate 3 (NpFloat 1)\<rparr>"
proof -
  have "np_cast wraps (np_float 32) 1 = Inr (NpFloat (of_int 1))"
    by (rule np_cast_float_exact) (simp add: np_precision_def)
  then show ?thesis by (simp add: np_full_def)
qed

section \<open>The latency report of the device server\<close>

lemma with_latency_sel [simp]:
  "latency (with_latency stats lat) = lat"
  "ORT_overhead_ms (with_latency stats lat) = fsub lat (total_ms stats)"
  "total_ms (with_latency stats lat) = total_ms stats"
  by (simp_all add: with_latency_def ti_stats.defs latency_report.defs)

text \<open>
  Claim C3. Whenever the device server returns a report, its \<^verbatim>\<open>latency\<close> entry is the
  wall-clock mean per sample, its \<^verbatim>\<open>total_ms\<close> entry is the one of the aggregation, and
  its overhead entry \<^verbatim>\<open>ORT_overhead_ms\<close> is the float difference \<^verbatim>\<open>latency - total_ms\<close>,
  unclamped: when \<^verbatim>\<open>latency < total_ms\<close> it is negative.
\<close>

theorem C3_overhead_not_clamped:
  assumes "dev_measure_latency L dev model s = (Inr (report, reboot), s')"
  shows "(\<exists>ti_model stats.
            compute_model_latency L ti_model = Inr (latency report)
          \<and> collect_ti_stats (get_TI_benchmark_data L) = Inr stats
          \<and> total_ms report = total_ms stats)
       \<and> ORT_overhead_ms report = fsub (latency report) (total_ms report)
       \<and> (latency report < total_ms report \<longrightarrow> ORT_overhead_ms report < 0)"
proof -
  from assms obtain ti_model lat stats where
    lat: "compute_model_latency L ti_model = Inr lat"
    and stats: "collect_ti_stats (get_TI_benchmark_data L) = Inr stats"
    and rep: "report = with_latency stats lat"
    unfolding dev_measure_latency_def by (auto elim!: bind_InrE)
  have src: "\<exists>ti_model stats.
            compute_model_latency L ti_model = Inr (latency report)
          \<and> collect_ti_stats (get_TI_benchmark_data L) = Inr stats
          \<and> total_ms report = total_ms stats"
    using lat stats by (auto simp: rep)
  have ov: "ORT_overhead_ms report = fsub (latency report) (total_ms report)"
    by (simp add: rep)
  have "latency report < total_ms report \<longrightarrow> ORT_overhead_ms report < 0"
    unfolding ov fsub_def by (auto intro: round_double_neg)
  with src ov show ?thesis by blast
qed

lemma example_create_ti_model:
  "create_ti_model example_libs example_device (Onnx example_model) empty_state =
     (Inr \<lparr>tm_model_path = [''working_dir'', ''model.onnx''],
           tm_providers = [''CPUExecutionProvider''],
           tm_artifacts_folder = None,
           tm_inputs = [(''x'', ''tensor(float)'', [1, 3])],
           dummy_input_feed =
             [(''x'', \<lparr>t_shape = [1, 3], t_dtype = np_float 32,
                     t_data = replicate 3 (NpFloat 1)\<rparr>)]\<rparr>,
      \<lparr>files = [([''working_dir''], Dir),
                ([''working_dir'', ''model.onnx''], File (Onnx example_model))],
       log = []\<rparr>)"
  by (simp add: create_ti_model_def example_device_def empty_state_def mkdir_parents_def
      TIOnnxruntimeModel_init_def select_model_def inference_session_def example_libs_def
      ort_value_dtype_to_np_dtype_def np_full_float_one act_defs fs_defs upt_rec)

lemma example_dev_measure_latency:
  "fst (dev_measure_latency example_libs example_device (Onnx example_model) empty_state)
     = Inr (example_report, False)"
  unfolding dev_measure_latency_def bind_def example_create_ti_model example_report_def
  by (simp add: compute_model_latency_def batch_size_def lift_def ret_def
      example_libs_def two_subgraphs_eq example_device_def)

lemma example_report_latency: "latency example_report < total_ms example_report"
proof -
  have "total_ms two_subgraphs_stats = int_truediv 8000 (10 ^ 6)"
    by (simp add: two_subgraphs_stats_def to_ms_def Let_def)
  moreover have "fdiv (1 / 1024) (float_of_int 1) < int_truediv 8000 (10 ^ 6)"
    by code_simp
  ultimately show ?thesis by (simp add: example_report_def)
qed

theorem C3_overhead_witness:
  "fst (dev_measure_latency example_libs example_device (Onnx example_model) empty_state)
     = Inr (example_report, False)
   \<and> latency example_report < total_ms example_report
   \<and> ORT_overhead_ms example_report < 0"
proof -
  obtain s' where
    run: "dev_measure_latency example_libs example_device (Onnx example_model) empty_state
            = (Inr (example_report, False), s')"
    using example_dev_measure_latency
    by (cases "dev_measure_latency example_libs example_device (Onnx example_model) empty_state")
       simp
  show ?thesis
    using C3_overhead_not_clamped [OF run] example_dev_measure_latency example_report_latency
    by blast
qed

section \<open>Loading a model on the device\<close>


lemma is_dir_not_file: "is_dir fs p \<Longrightarrow> \<not> is_file fs p"
  by (simp add: is_dir_def is_file_def)















section \<open>Synthetic calibration data\<close>

lemma digit_char_inj: "a < 10 \<Longrightarrow> b < 10 \<Longrightarrow> digit_char a = digit_char b \<Longrightarrow> a = b"
proof -
  assume a: "a < 10" and b: "b < 10" and eq: "digit_char a = digit_char b"
  have d: "distinct ''0123456789''" by simp
  from a b have "a < length ''0123456789''" "b < length ''0123456789''" by simp_all
  with d eq show "a = b"
    unfolding digit_char_def by (simp only: nth_eq_iff_index_eq)
qed

lemma str_nat_nonempty: "str_nat n \<noteq> []"
  by (subst str_nat.simps) simp

lemma str_nat_inj: "str_nat n = str_nat m \<Longrightarrow> n = m"
proof (induction n arbitrary: m rule: str_nat.induct)
  case (1 n)
  show ?case
  proof (cases "n < 10")
    case n: True
    show ?thesis
    proof (cases "m < 10")
      case True
      with n "1.prems" show ?thesis
        by (simp add: str_nat.simps [of n] str_nat.simps [of m] digit_char_inj)
    next
      case False
      with n "1.prems" show ?thesis
        using str_nat_nonempty [of "m div 10"]
        by (simp add: str_nat.simps [of n] str_nat.simps [of m])
    qed
  next
    case n: False
    show ?thesis
    proof (cases "m < 10")
      case True
      with n "1.prems" show ?thesis
        using str_nat_nonempty [of "n div 10"]
        by (simp add: str_nat.simps [of n] str_nat.simps [of m])
    next
      case False
      with n "1.prems" have eq: "str_nat (n div 10) = str_nat (m div 10)"
        and dg: "digit_char (n mod 10) = digit_char (m mod 10)"
        by (simp_all add: str_nat.simps [of n] str_nat.simps [of m])
      from "1.IH" [OF n eq] have "n div 10 = m div 10" .
      moreover from dg have "n mod 10 = m mod 10"
        by (intro digit_char_inj) simp_all
      ultimately show ?thesis
        by (metis div_mult_mod_eq)
    qed
  qed
qed

lemma fake_name_inj: "0 \<le> i \<Longrightarrow> 0 \<le> j \<Longrightarrow> fake_name i = fake_name j \<Longrightarrow> i = j"
  by (auto simp: fake_name_def dest!: str_nat_inj)

lemma distinct_fake_names: "distinct (map fake_name [1 .. n])"
  by (auto simp: distinct_map inj_on_def intro: fake_name_inj)

lemma length_upto_nat: "length [1 .. n] = nat n"
  by simp


lemma fake_inputs_ConsE:
  assumes "fake_inputs L i (g # gs) acc = Inr feed"
  obtains dt t where "tensor_dtype_to_np_dtype L (gi_elem_type g) = Some dt"
    and "np_full (np_wraps L) i (map dim_value (gi_shape g)) dt = Inr t"
    and "fake_inputs L i gs (AList.update (gi_name g) t acc) = Inr feed"
  using assms
  by (auto simp: onnx_dtype_to_np_dtype_def split: option.splits sum.splits)

lemma fake_inputs_keys:
  "fake_inputs L i gs acc = Inr feed \<Longrightarrow> fst ` set feed = fst ` set acc \<union> gi_name ` set gs"
proof (induction gs arbitrary: acc)
  case Nil
  then show ?case by simp
next
  case (Cons g gs)
  from Cons.prems obtain t where
    rest: "fake_inputs L i gs (AList.update (gi_name g) t acc) = Inr feed"
    by (rule fake_inputs_ConsE)
  from Cons.IH [OF rest] show ?case
    by (simp add: dom_update)
qed

lemma fake_inputs_distinct:
  "fake_inputs L i gs acc = Inr feed \<Longrightarrow> distinct (map fst acc) \<Longrightarrow> distinct (map fst feed)"
proof (induction gs arbitrary: acc)
  case Nil
  then show ?case by simp
next
  case (Cons g gs)
  from Cons.prems(1) obtain t where
    rest: "fake_inputs L i gs (AList.update (gi_name g) t acc) = Inr feed"
    by (rule fake_inputs_ConsE)
  from Cons.IH [OF rest] Cons.prems(2) show ?case
    by (simp add: distinct_update)
qed

lemma fake_inputs_frame:
  "fake_inputs L i gs acc = Inr feed \<Longrightarrow> k \<notin> gi_name ` set gs \<Longrightarrow> map_of feed k = map_of acc k"
proof (induction gs arbitrary: acc)
  case Nil
  then show ?case by simp
next
  case (Cons g gs)
  from Cons.prems(1) obtain t where
    rest: "fake_inputs L i gs (AList.update (gi_name g) t acc) = Inr feed"
    by (rule fake_inputs_ConsE)
  from Cons.IH [OF rest] Cons.prems(2) show ?case
    by (simp add: update_conv')
qed

lemma declaration_of_Cons:
  "declaration_of (g # gs) k =
     (if k \<in> gi_name ` set gs then declaration_of gs k
      else if gi_name g = k then g else declaration_of gs k)"
proof -
  have "filter (\<lambda>h. gi_name h = k) gs \<noteq> []" if "k \<in> gi_name ` set gs"
    using that by (auto simp: filter_empty_conv)
  moreover have "filter (\<lambda>h. gi_name h = k) gs = []" if "k \<notin> gi_name ` set gs"
    using that by (auto simp: filter_empty_conv)
  ultimately show ?thesis by (auto simp: declaration_of_def)
qed

lemma declaration_of_distinct:
  "distinct (map gi_name gs) \<Longrightarrow> g \<in> set gs \<Longrightarrow> declaration_of gs (gi_name g) = g"
proof (induction gs)
  case Nil
  then show ?case by simp
next
  case (Cons g0 gs)
  then show ?case by (auto simp: declaration_of_Cons)
qed

lemma fake_inputs_declared:
  "fake_inputs L i gs acc = Inr feed \<Longrightarrow> k \<in> gi_name ` set gs \<Longrightarrow>
     \<exists>dtype x.
        tensor_dtype_to_np_dtype L (gi_elem_type (declaration_of gs k)) = Some dtype
      \<and> np_cast (np_wraps L) dtype i = Inr x
      \<and> map_of feed k =
          Some \<lparr>t_shape = map dim_value (gi_shape (declaration_of gs k)), t_dtype = dtype,
                t_data = replicate
                  (nat (prod_list (map dim_value (gi_shape (declaration_of gs k))))) x\<rparr>"
proof (induction gs arbitrary: acc)
  case Nil
  then show ?case by simp
next
  case (Cons g0 gs)
  from Cons.prems(1) obtain dt t where
    dt: "tensor_dtype_to_np_dtype L (gi_elem_type g0) = Some dt"
    and t: "np_full (np_wraps L) i (map dim_value (gi_shape g0)) dt = Inr t"
    and rest: "fake_inputs L i gs (AList.update (gi_name g0) t acc) = Inr feed"
    by (rule fake_inputs_ConsE)
  show ?case
  proof (cases "k \<in> gi_name ` set gs")
    case True
    with Cons.IH [OF rest] show ?thesis by (simp add: declaration_of_Cons)
  next
    case False
    with Cons.prems(2) have k: "k = gi_name g0" by auto
    from False have d: "declaration_of (g0 # gs) k = g0"
      by (simp add: declaration_of_Cons k)
    from fake_inputs_frame [OF rest False]
    have "map_of feed k = Some t"
      by (simp add: update_conv' k)
    with t dt show ?thesis
      unfolding d by (auto elim!: np_full_Inr)
  qed
qed

lemma np_cast_value:
  assumes "np_cast wraps dtype i = Inr x" and "1 \<le> i"
  shows "(dtype = np_bool \<longrightarrow> x = NpBool True)
       \<and> (\<forall>bits. dtype = np_int bits \<and> i < 2 ^ (bits - 1) \<longrightarrow> x = NpInt i)
       \<and> (\<forall>bits. dtype = np_uint bits \<and> i < 2 ^ bits \<longrightarrow> x = NpInt i)
       \<and> (\<forall>bits. dtype = np_float bits \<and> i < 2 ^ np_precision bits \<longrightarrow> x = NpFloat (of_int i))"
proof (intro conjI allI impI)
  assume "dtype = np_bool"
  with assms show "x = NpBool True" by auto
next
  fix bits
  assume "dtype = np_int bits \<and> i < 2 ^ (bits - 1)"
  moreover have "- (2 ^ (bits - 1)) \<le> i"
    using assms(2) by (smt (verit) zero_less_power)
  ultimately show "x = NpInt i" using assms by auto
next
  fix bits
  assume "dtype = np_uint bits \<and> i < 2 ^ bits"
  with assms show "x = NpInt i" by auto
next
  fix bits
  assume a: "dtype = np_float bits \<and> i < 2 ^ np_precision bits"
  with assms(2) have "\<bar>i\<bar> < 2 ^ np_precision bits" by simp
  from np_cast_float_exact [OF this, of wraps] assms(1) a show "x = NpFloat (of_int i)"
    by simp
qed

lemma write_file_lookup:
  "write_file p c fs = Inr fs' \<Longrightarrow> lookup fs' q = (if q = p then Some (File c) else lookup fs q)"
  by (auto simp: write_file_def lookup_def is_dir_def update_conv' split: if_splits)

lemma fs_op_Inr [simp]:
  "fs_op f s = (Inr u, s') \<longleftrightarrow> (\<exists>fs'. f (files s) = Inr fs' \<and> s' = s\<lparr>files := fs'\<rparr>)"
  by (auto simp: fs_op_def split: sum.splits)

lemma fake_files_ConsE:
  assumes "fake_files L gs out (i # is) s = (Inr (), s')"
  obtains feed fs1 where "fake_inputs L i gs [] = Inr feed"
    and "write_file (out @ [fake_name i]) (Pickle feed) (files s) = Inr fs1"
    and "fake_files L gs out is (s\<lparr>files := fs1\<rparr>) = (Inr (), s')"
  using assms by (auto elim!: bind_InrE seq_InrE)

lemma fake_files_log: "fake_files L gs out is s = (Inr (), s') \<Longrightarrow> log s' = log s"
proof (induction "is" arbitrary: s)
  case Nil
  then show ?case by simp
next
  case (Cons i "is")
  from Cons.prems obtain fs1 where
    "fake_files L gs out is (s\<lparr>files := fs1\<rparr>) = (Inr (), s')"
    by (rule fake_files_ConsE)
  from Cons.IH [OF this] show ?case by simp
qed

lemma fake_files_frame:
  "fake_files L gs out is s = (Inr (), s') \<Longrightarrow> p \<notin> (\<lambda>i. out @ [fake_name i]) ` set is \<Longrightarrow>
     lookup (files s') p = lookup (files s) p"
proof (induction "is" arbitrary: s)
  case Nil
  then show ?case by simp
next
  case (Cons i "is")
  from Cons.prems(1) obtain feed fs1 where
    w: "write_file (out @ [fake_name i]) (Pickle feed) (files s) = Inr fs1"
    and rest: "fake_files L gs out is (s\<lparr>files := fs1\<rparr>) = (Inr (), s')"
    by (rule fake_files_ConsE)
  from Cons.IH [OF rest] Cons.prems(2) write_file_lookup [OF w, of p] show ?case
    by auto
qed

lemma fake_files_written:
  "fake_files L gs out is s = (Inr (), s') \<Longrightarrow> distinct (map fake_name is) \<Longrightarrow> i \<in> set is \<Longrightarrow>
     \<exists>feed. fake_inputs L i gs [] = Inr feed
        \<and> lookup (files s') (out @ [fake_name i]) = Some (File (Pickle feed))"
proof (induction "is" arbitrary: s)
  case Nil
  then show ?case by simp
next
  case (Cons j "is")
  from Cons.prems(1) obtain feed fs1 where
    feed: "fake_inputs L j gs [] = Inr feed"
    and w: "write_file (out @ [fake_name j]) (Pickle feed) (files s) = Inr fs1"
    and rest: "fake_files L gs out is (s\<lparr>files := fs1\<rparr>) = (Inr (), s')"
    by (rule fake_files_ConsE)
  show ?case
  proof (cases "i \<in> set is")
    case True
    with Cons.IH [OF rest] Cons.prems(2) show ?thesis by simp
  next
    case False
    with Cons.prems(3) have i: "i = j" by simp
    from Cons.prems(2) have "out @ [fake_name j] \<notin> (\<lambda>i. out @ [fake_name i]) ` set is"
      by auto
    from fake_files_frame [OF rest this] write_file_lookup [OF w, of "out @ [fake_name j]"]
    have "lookup (files s') (out @ [fake_name j]) = Some (File (Pickle feed))"
      by simp
    with feed show ?thesis by (auto simp: i)
  qed
qed

lemma onnx_load_Inr:
  "onnx_load p s = (Inr m, s') \<Longrightarrow> read_file p (files s) = Inr (Onnx m) \<and> s' = s"
  unfolding onnx_load_def
  by (auto elim!: bind_InrE simp: raise_def split: sum.splits blob.splits)

lemma upto_1_2: "[1 .. (2::int)] = [1, 2]"
  by (simp add: upto_rec1)

lemma fake_names:
  "fake_name 1 = ''fake_calibration_data_1.pickle''"
  "fake_name 2 = ''fake_calibration_data_2.pickle''"
  by (simp_all add: fake_name_def str_nat.simps digit_char_def)

lemma np_full_float_32:
  "0 \<le> v \<Longrightarrow> v < 1000 \<Longrightarrow> \<forall>d\<in>set shape. 0 \<le> d \<Longrightarrow>
     np_full wraps v shape (np_float 32)
       = Inr \<lparr>t_shape = shape, t_dtype = np_float 32,
              t_data = replicate (nat (prod_list shape)) (NpFloat (of_int v))\<rparr>"
proof -
  assume "0 \<le> v" "v < 1000" and shape: "\<forall>d\<in>set shape. 0 \<le> d"
  then have "np_cast wraps (np_float 32) v = Inr (NpFloat (of_int v))"
    by (intro np_cast_float_exact) (simp add: np_precision_def)
  with shape show ?thesis by (auto simp: np_full_def)
qed

text \<open>
  Claim C4, as stated, fails on the code: \<^verbatim>\<open>np.full\<close> converts the fill value to the
  element type, and the shape is read from the \<^verbatim>\<open>dim_value\<close> fields. For a model with a
  boolean input and an input whose first dimension is symbolic, and the default of two
  samples, the file of sample 2 holds a boolean tensor whose elements are all
  \<^verbatim>\<open>True\<close>, not 2, and a tensor of shape \<open>(0, 3)\<close> without elements, which is not the
  declared shape.
\<close>

lemma mask_generate:
  "generate_fake_calibration_data example_libs [''m.onnx''] [''out''] 2 mask_tree
     = (Inr (), \<lparr>files = [([''m.onnx''], File (Onnx mask_model)), ([''out''], Dir),
                          ([''out'', ''fake_calibration_data_1.pickle''], File (Pickle (mask_sample 1))),
                          ([''out'', ''fake_calibration_data_2.pickle''], File (Pickle (mask_sample 2)))],
                 log = []\<rparr>)"
proof -
  have image: "np_full False v [0, 3] (np_float 32)
      = Inr \<lparr>t_shape = [0, 3], t_dtype = np_float 32, t_data = []\<rparr>" if "0 \<le> v" "v < 1000" for v
    using np_full_float_32 [OF that, of "[0, 3]" False] by simp
  have mask: "np_full False v [2] np_bool
      = Inr \<lparr>t_shape = [2], t_dtype = np_bool, t_data = [NpBool True, NpBool True]\<rparr>"
    if "0 < v" for v
    using that by (simp add: np_full_def numeral_2_eq_2)
  show ?thesis
    by (simp add: generate_fake_calibration_data_def onnx_load_def mask_tree_def mask_model_def
        mask_sample_def onnx_dtype_to_np_dtype_def mask image upto_1_2 fake_names
        example_libs_def act_defs fs_defs)
qed

theorem C4_bool_input_counterexample:
  "generate_fake_calibration_data example_libs [''m.onnx''] [''out''] n_output_files_default
       mask_tree
     = (Inr (), \<lparr>files = [([''m.onnx''], File (Onnx mask_model)), ([''out''], Dir),
                          ([''out'', ''fake_calibration_data_1.pickle''], File (Pickle (mask_sample 1))),
                          ([''out'', ''fake_calibration_data_2.pickle''], File (Pickle (mask_sample 2)))],
                 log = []\<rparr>)
   \<and> map_of (mask_sample 2) ''mask''
       = Some \<lparr>t_shape = [2], t_dtype = np_bool, t_data = [NpBool True, NpBool True]\<rparr>
   \<and> \<not> filled_with 2 \<lparr>t_shape = [2], t_dtype = np_bool, t_data = [NpBool True, NpBool True]\<rparr>
   \<and> map (\<lambda>g. (gi_name g, gi_shape g)) (graph_inputs mask_model)
       = [(''mask'', [DimValue 2]), (''image'', [DimParam ''batch'', DimValue 3])]
   \<and> map_of (mask_sample 2) ''image''
       = Some \<lparr>t_shape = [0, 3], t_dtype = np_float 32, t_data = []\<rparr>"
  by (simp add: mask_generate n_output_files_default_def mask_sample_def filled_with_def
      mask_model_def)

text \<open>
  Claim C4, amended. When the generator returns, it has read the model at \<^verbatim>\<open>model_path\<close>
  and written \<open>n\<close> files, with \<open>n\<close> different names \<^verbatim>\<open>fake_calibration_data_<i>.pickle\<close>
  for \<open>i\<close> from 1 to \<open>n\<close>, and nothing else has changed in the file tree. The file for
  \<open>i\<close> holds a feed with exactly the names of the declared inputs. Under each name it
  holds the tensor \<^verbatim>\<open>np.full\<close> makes for the declaration of that name (the last one,
  should a name be declared twice; the declaration itself when the names are distinct):
  its shape is the list of the \<^verbatim>\<open>dim_value\<close> fields of the declared dimensions (0 for a
  symbolic dimension), its element type is the numpy type of the declared element
  type, and every element is \<open>i\<close> converted to that type: \<open>i\<close> itself for an integer type
  with \<open>i\<close> in its range and for a float type with \<open>i\<close> below 2 to the bits of its
  significand, \<^verbatim>\<open>True\<close> for the boolean type.
\<close>

theorem C4_synthetic_calibration:
  assumes "generate_fake_calibration_data L model_path output_dir n s = (Inr (), s')"
  shows "\<exists>model. read_file model_path (files s) = Inr (Onnx model)
     \<and> length (map fake_name [1 .. n]) = nat n \<and> distinct (map fake_name [1 .. n])
     \<and> log s' = log s
     \<and> (\<forall>p. p \<notin> (\<lambda>i. output_dir @ [fake_name i]) ` {1 .. n}
            \<longrightarrow> lookup (files s') p = lookup (files s) p)
     \<and> (\<forall>i\<in>{1 .. n}. \<exists>feed.
            lookup (files s') (output_dir @ [fake_name i]) = Some (File (Pickle feed))
          \<and> fst ` set feed = gi_name ` set (graph_inputs model)
          \<and> distinct (map fst feed)
          \<and> (\<forall>g\<in>set (graph_inputs model). \<exists>d dtype x.
                 d = declaration_of (graph_inputs model) (gi_name g)
               \<and> (distinct (map gi_name (graph_inputs model)) \<longrightarrow> d = g)
               \<and> tensor_dtype_to_np_dtype L (gi_elem_type d) = Some dtype
               \<and> np_cast (np_wraps L) dtype i = Inr x
               \<and> map_of feed (gi_name g) =
                   Some \<lparr>t_shape = map dim_value (gi_shape d), t_dtype = dtype,
                         t_data = replicate (nat (prod_list (map dim_value (gi_shape d)))) x\<rparr>
               \<and> (dtype = np_bool \<longrightarrow> x = NpBool True)
               \<and> (\<forall>bits. dtype = np_int bits \<and> i < 2 ^ (bits - 1) \<longrightarrow> x = NpInt i)
               \<and> (\<forall>bits. dtype = np_uint bits \<and> i < 2 ^ bits \<longrightarrow> x = NpInt i)
               \<and> (\<forall>bits. dtype = np_float bits \<and> i < 2 ^ np_precision bits
                    \<longrightarrow> x = NpFloat (of_int i))))"
proof -
  from assms obtain model where
    model: "read_file model_path (files s) = Inr (Onnx model)"
    and run: "fake_files L (graph_inputs model) output_dir [1 .. n] s = (Inr (), s')"
    unfolding generate_fake_calibration_data_def
    by (auto elim!: bind_InrE dest!: onnx_load_Inr)
  let ?gs = "graph_inputs model"
  have frame: "\<forall>p. p \<notin> (\<lambda>i. output_dir @ [fake_name i]) ` {1 .. n}
            \<longrightarrow> lookup (files s') p = lookup (files s) p"
    using fake_files_frame [OF run] by simp
  have each: "\<exists>feed.
            lookup (files s') (output_dir @ [fake_name i]) = Some (File (Pickle feed))
          \<and> fst ` set feed = gi_name ` set ?gs
          \<and> distinct (map fst feed)
          \<and> (\<forall>g\<in>set ?gs. \<exists>d dtype x.
                 d = declaration_of ?gs (gi_name g)
               \<and> (distinct (map gi_name ?gs) \<longrightarrow> d = g)
               \<and> tensor_dtype_to_np_dtype L (gi_elem_type d) = Some dtype
               \<and> np_cast (np_wraps L) dtype i = Inr x
               \<and> map_of feed (gi_name g) =
                   Some \<lparr>t_shape = map dim_value (gi_shape d), t_dtype = dtype,
                         t_data = replicate (nat (prod_list (map dim_value (gi_shape d)))) x\<rparr>
               \<and> (dtype = np_bool \<longrightarrow> x = NpBool True)
               \<and> (\<forall>bits. dtype = np_int bits \<and> i < 2 ^ (bits - 1) \<longrightarrow> x = NpInt i)
               \<and> (\<forall>bits. dtype = np_uint bits \<and> i < 2 ^ bits \<longrightarrow> x = NpInt i)
               \<and> (\<forall>bits. dtype = np_float bits \<and> i < 2 ^ np_precision bits
                    \<longrightarrow> x = NpFloat (of_int i)))"
    if i: "i \<in> {1 .. n}" for i
  proof -
    from fake_files_written [OF run distinct_fake_names, of i] i obtain feed where
      feed: "fake_inputs L i ?gs [] = Inr feed"
      and written: "lookup (files s') (output_dir @ [fake_name i]) = Some (File (Pickle feed))"
      by auto
    have keys: "fst ` set feed = gi_name ` set ?gs"
      using fake_inputs_keys [OF feed] by simp
    have dist: "distinct (map fst feed)"
      using fake_inputs_distinct [OF feed] by simp
    have "\<exists>d dtype x.
                 d = declaration_of ?gs (gi_name g)
               \<and> (distinct (map gi_name ?gs) \<longrightarrow> d = g)
               \<and> tensor_dtype_to_np_dtype L (gi_elem_type d) = Some dtype
               \<and> np_cast (np_wraps L) dtype i = Inr x
               \<and> map_of feed (gi_name g) =
                   Some \<lparr>t_shape = map dim_value (gi_shape d), t_dtype = dtype,
                         t_data = replicate (nat (prod_list (map dim_value (gi_shape d)))) x\<rparr>
               \<and> (dtype = np_bool \<longrightarrow> x = NpBool True)
               \<and> (\<forall>bits. dtype = np_int bits \<and> i < 2 ^ (bits - 1) \<longrightarrow> x = NpInt i)
               \<and> (\<forall>bits. dtype = np_uint bits \<and> i < 2 ^ bits \<longrightarrow> x = NpInt i)
               \<and> (\<forall>bits. dtype = np_float bits \<and> i < 2 ^ np_precision bits
                    \<longrightarrow> x = NpFloat (of_int i))"
      if g: "g \<in> set ?gs" for g
    proof -
      from g have "gi_name g \<in> gi_name ` set ?gs" by simp
      from fake_inputs_declared [OF feed this] obtain dtype x where
        dt: "tensor_dtype_to_np_dtype L (gi_elem_type (declaration_of ?gs (gi_name g))) = Some dtype"
        and x: "np_cast (np_wraps L) dtype i = Inr x"
        and t: "map_of feed (gi_name g) =
          Some \<lparr>t_shape = map dim_value (gi_shape (declaration_of ?gs (gi_name g))), t_dtype = dtype,
                t_data = replicate
                  (nat (prod_list (map dim_value (gi_shape (declaration_of ?gs (gi_name g)))))) x\<rparr>"
        by blast
      from i have "1 \<le> i" by simp
      note v = np_cast_value [OF x this]
      have "distinct (map gi_name ?gs) \<longrightarrow> declaration_of ?gs (gi_name g) = g"
        using g by (simp add: declaration_of_distinct)
      with dt x t v show ?thesis by blast
    qed
    with written keys dist show ?thesis by blast
  qed
  have names: "length (map fake_name [1 .. n]) = nat n" by simp
  from model names distinct_fake_names [of n] fake_files_log [OF run] frame each
  show ?thesis by blast
qed

lemma example_generate:
  assumes "tensor_dtype_to_np_dtype L = tensor_dtype_to_np_dtype example_libs"
  shows "generate_fake_calibration_data L [''working_dir'', ''model.onnx'']
     [''working_dir'', ''calibration_data''] 2
     \<lparr>files = [([''working_dir''], Dir),
               ([''working_dir'', ''artifacts''], Dir),
               ([''working_dir'', ''calibration_data''], Dir),
               ([''working_dir'', ''model.onnx''], File (Onnx example_model))], log = l\<rparr>
   = (Inr (), \<lparr>files = synthetic_files, log = l\<rparr>)"
proof -
  have x: "np_full (np_wraps L) v [1, 3] (np_float 32)
      = Inr \<lparr>t_shape = [1, 3], t_dtype = np_float 32, t_data = replicate 3 (NpFloat (of_int v))\<rparr>"
    if "0 \<le> v" "v < 1000" for v
    using np_full_float_32 [OF that, of "[1, 3]" "np_wraps L"] by simp
  show ?thesis
    by (simp add: generate_fake_calibration_data_def onnx_load_def assms
        onnx_dtype_to_np_dtype_def x upto_1_2 fake_names synthetic_files_def feed_of_def
        example_libs_def example_model_def act_defs fs_defs)
qed

theorem C4_synthetic_calibration_witness:
  "generate_fake_calibration_data example_libs (model_slot example_server)
       (calibration_slot example_server) n_output_files_default fresh_tree
     = (Inr (), \<lparr>files = synthetic_files, log = []\<rparr>)
   \<and> lookup synthetic_files (calibration_slot example_server @ [fake_name 2])
       = Some (File (Pickle (feed_of 2)))
   \<and> map_of (feed_of 2) ''x''
       = Some \<lparr>t_shape = [1, 3], t_dtype = np_float 32, t_data = replicate 3 (NpFloat 2)\<rparr>
   \<and> filled_with 2 \<lparr>t_shape = [1, 3], t_dtype = np_float 32, t_data = replicate 3 (NpFloat 2)\<rparr>"
proof -
  define x where "x = \<lparr>gi_name = ''x'', gi_shape = [DimValue 1, DimValue 3], gi_elem_type = 1\<rparr>"
  have run: "generate_fake_calibration_data example_libs (model_slot example_server)
          (calibration_slot example_server) n_output_files_default fresh_tree
       = (Inr (), \<lparr>files = synthetic_files, log = []\<rparr>)"
    using example_generate [of example_libs "[]"]
    by (simp add: model_slot_def calibration_slot_def example_server_def fresh_tree_def
        n_output_files_default_def)
  have model: "read_file (model_slot example_server) (files fresh_tree) = Inr (Onnx example_model)"
    by (simp add: model_slot_def example_server_def fresh_tree_def fs_defs)
  have inputs: "graph_inputs example_model = [x]"
    by (simp add: example_model_def x_def)
  have two: "2 \<in> {1 .. n_output_files_default}"
    by (simp add: n_output_files_default_def)
  from C4_synthetic_calibration [OF run] obtain m where
    m: "read_file (model_slot example_server) (files fresh_tree) = Inr (Onnx m)"
    and each: "\<forall>i\<in>{1 .. n_output_files_default}. \<exists>feed.
            lookup (files \<lparr>files = synthetic_files, log = []\<rparr>)
              (calibration_slot example_server @ [fake_name i]) = Some (File (Pickle feed))
          \<and> fst ` set feed = gi_name ` set (graph_inputs m)
          \<and> distinct (map fst feed)
          \<and> (\<forall>g\<in>set (graph_inputs m). \<exists>d dtype x.
                 d = declaration_of (graph_inputs m) (gi_name g)
               \<and> (distinct (map gi_name (graph_inputs m)) \<longrightarrow> d = g)
               \<and> tensor_dtype_to_np_dtype example_libs (gi_elem_type d) = Some dtype
               \<and> np_cast (np_wraps example_libs) dtype i = Inr x
               \<and> map_of feed (gi_name g) =
                   Some \<lparr>t_shape = map dim_value (gi_shape d), t_dtype = dtype,
                         t_data = replicate (nat (prod_list (map dim_value (gi_shape d)))) x\<rparr>
               \<and> (dtype = np_bool \<longrightarrow> x = NpBool True)
               \<and> (\<forall>bits. dtype = np_int bits \<and> i < 2 ^ (bits - 1) \<longrightarrow> x = NpInt i)
               \<and> (\<forall>bits. dtype = np_uint bits \<and> i < 2 ^ bits \<longrightarrow> x = NpInt i)
               \<and> (\<forall>bits. dtype = np_float bits \<and> i < 2 ^ np_precision bits
                    \<longrightarrow> x = NpFloat (of_int i)))"
    by blast
  from m model have m_eq: "m = example_model" by simp
  from each [rule_format, OF two] obtain feed where
    written: "lookup synthetic_files (calibration_slot example_server @ [fake_name 2])
              = Some (File (Pickle feed))"
    and tensors: "\<forall>g\<in>set (graph_inputs m). \<exists>d dtype x.
                 d = declaration_of (graph_inputs m) (gi_name g)
               \<and> (distinct (map gi_name (graph_inputs m)) \<longrightarrow> d = g)
               \<and> tensor_dtype_to_np_dtype example_libs (gi_elem_type d) = Some dtype
               \<and> np_cast (np_wraps example_libs) dtype 2 = Inr x
               \<and> map_of feed (gi_name g) =
                   Some \<lparr>t_shape = map dim_value (gi_shape d), t_dtype = dtype,
                         t_data = replicate (nat (prod_list (map dim_value (gi_shape d)))) x\<rparr>
               \<and> (dtype = np_bool \<longrightarrow> x = NpBool True)
               \<and> (\<forall>bits. dtype = np_int bits \<and> (2::int) < 2 ^ (bits - 1) \<longrightarrow> x = NpInt 2)
               \<and> (\<forall>bits. dtype = np_uint bits \<and> (2::int) < 2 ^ bits \<longrightarrow> x = NpInt 2)
               \<and> (\<forall>bits. dtype = np_float bits \<and> (2::int) < 2 ^ np_precision bits
                    \<longrightarrow> x = NpFloat (of_int 2))"
    by auto
  have "x \<in> set (graph_inputs m)" by (simp add: m_eq inputs)
  from tensors [rule_format, OF this] obtain d dtype v where
    d: "distinct (map gi_name (graph_inputs m)) \<longrightarrow> d = x"
    and dt: "tensor_dtype_to_np_dtype example_libs (gi_elem_type d) = Some dtype"
    and t: "map_of feed (gi_name x) =
              Some \<lparr>t_shape = map dim_value (gi_shape d), t_dtype = dtype,
                    t_data = replicate (nat (prod_list (map dim_value (gi_shape d)))) v\<rparr>"
    and fl: "\<forall>bits. dtype = np_float bits \<and> (2::int) < 2 ^ np_precision bits
                    \<longrightarrow> v = NpFloat (of_int 2)"
    by blast
  from d have d_eq: "d = x" by (simp add: m_eq inputs)
  from dt have dtype: "dtype = np_float 32"
    by (simp add: d_eq x_def example_libs_def)
  from fl [rule_format, of 32] have v: "v = NpFloat 2"
    by (simp add: dtype np_precision_def)
  from t have tensor: "map_of feed ''x''
      = Some \<lparr>t_shape = [1, 3], t_dtype = np_float 32, t_data = replicate 3 (NpFloat 2)\<rparr>"
    by (simp add: d_eq dtype v x_def)
  have stored: "lookup synthetic_files (calibration_slot example_server @ [fake_name 2])
       = Some (File (Pickle (feed_of 2)))"
    by (simp add: synthetic_files_def calibration_slot_def example_server_def fake_names fs_defs)
  with written have "feed = feed_of 2" by simp
  with tensor have "map_of (feed_of 2) ''x''
      = Some \<lparr>t_shape = [1, 3], t_dtype = np_float 32, t_data = replicate 3 (NpFloat 2)\<rparr>"
    by simp
  moreover have "filled_with 2
      \<lparr>t_shape = [1, 3], t_dtype = np_float 32, t_data = replicate 3 (NpFloat 2)\<rparr>"
    by (simp add: filled_with_def list_all_iff)
  ultimately show ?thesis using run stored by (intro conjI)
qed

section \<open>The events of a compile job\<close>

lemma bindE:
  assumes "bind m f s = (r, s'')"
  obtains (fail) err where "m s = (Inl err, s'')" "r = Inl err"
    | (ok) x s' where "m s = (Inr x, s')" "f x s' = (r, s'')"
  using assms by (auto simp: bind_def split: prod.splits sum.splits)

lemma seqE:
  assumes "seq m k s = (r, s'')"
  obtains (fail) err where "m s = (Inl err, s'')" "r = Inl err"
    | (ok) s' where "m s = (Inr (), s')" "k s' = (r, s'')"
  using assms unfolding seq_def by (auto elim!: bindE)

lemma emit_eq [simp]: "emit e s = (r, s') \<longleftrightarrow> r = Inr () \<and> s' = s\<lparr>log := log s @ [e]\<rparr>"
  by (auto simp: emit_def)

lemma raise_eq [simp]: "raise err s = (r, s') \<longleftrightarrow> r = Inl err \<and> s' = s"
  by (auto simp: raise_def)

lemma ret_eq [simp]: "ret x s = (r, s') \<longleftrightarrow> r = Inr x \<and> s' = s"
  by (auto simp: ret_def)

lemma lift_eq [simp]: "lift v s = (r, s') \<longleftrightarrow> r = v \<and> s' = s"
  by (auto simp: lift_def)

lemma fs_op_log: "fs_op f s = (r, s') \<Longrightarrow> log s' = log s"
  by (auto simp: fs_op_def split: sum.splits)

lemma silentD: "silent m \<Longrightarrow> m s = (r, s') \<Longrightarrow> log s' = log s"
  unfolding silent_def by (metis snd_conv)

lemma silentI: "(\<And>s r s'. m s = (r, s') \<Longrightarrow> log s' = log s) \<Longrightarrow> silent m"
  unfolding silent_def by (metis prod.collapse)

lemma silent_ret [intro!, simp]: "silent (ret x)"
  by (rule silentI) simp

lemma silent_raise [intro!, simp]: "silent (raise err)"
  by (rule silentI) simp

lemma silent_lift [intro!, simp]: "silent (lift v)"
  by (rule silentI) simp

lemma silent_fs_op [intro!, simp]: "silent (fs_op f)"
  by (rule silentI) (rule fs_op_log)

lemma silent_fs_read [intro!, simp]: "silent (fs_read f)"
  by (rule silentI) simp

lemma silent_bind [intro!]:
  assumes m: "silent m" and f: "\<And>x. silent (f x)"
  shows "silent (bind m f)"
proof (rule silentI)
  fix s r s''
  assume "bind m f s = (r, s'')"
  then show "log s'' = log s"
  proof (cases rule: bindE)
    case (fail err)
    with m show ?thesis by (auto dest: silentD)
  next
    case (ok x s')
    with silentD [OF m ok(1)] silentD [OF f ok(2)] show ?thesis by simp
  qed
qed

lemma silent_seq [intro!]: "silent m \<Longrightarrow> silent k \<Longrightarrow> silent (seq m k)"
  unfolding seq_def by (rule silent_bind)

lemma silent_if [intro!]: "silent a \<Longrightarrow> silent b \<Longrightarrow> silent (if c then a else b)"
  by simp

lemma silent_make_missing [intro!, simp]: "silent (make_missing qs)"
  by (induction qs) auto

lemma silent_mkdir_parents [intro!, simp]: "silent (mkdir_parents p)"
  unfolding mkdir_parents_def by auto

lemma silent_extract_member [intro!, simp]: "silent (extract_member d m)"
  by (cases m) (auto simp: Let_def split: option.splits)

lemma silent_extractall [intro!, simp]: "silent (extractall d ms)"
  by (induction ms) auto

lemma silent_fake_files [intro!, simp]: "silent (fake_files L gs out is)"
  by (induction "is") auto

lemma silent_onnx_load [intro!, simp]: "silent (onnx_load p)"
  unfolding onnx_load_def by (auto split: sum.splits blob.splits)

lemma silent_library_load [intro!, simp]: "silent (library_load name p)"
  unfolding library_load_def by (auto split: option.splits node.splits blob.splits)

lemma silent_generate [intro!, simp]: "silent (generate_fake_calibration_data L mp out n)"
  unfolding generate_fake_calibration_data_def by auto

lemma silent_write_files [intro!, simp]: "silent (write_files d fs)"
  by (induction fs) auto

lemma silent_copy_file [intro!, simp]: "silent (copy_file src dst)"
  unfolding copy_file_def by (auto split: sum.splits)

lemma silent_prepare_output_dir [intro!, simp]: "silent (prepare_output_dir out force)"
  unfolding prepare_output_dir_def by (auto split: prod.splits)

lemma silent_resolve_calibration [intro!, simp]: "silent (resolve_calibration L srv calib)"
  unfolding resolve_calibration_def by (auto split: option.splits blob.splits)


lemma no_value_errorD: "no_value_error m \<Longrightarrow> m s = (Inl (ValueError v), s') \<Longrightarrow> False"
  unfolding no_value_error_def by (metis fst_conv)

lemma no_value_errorI:
  "(\<And>s v s'. m s = (Inl (ValueError v), s') \<Longrightarrow> False) \<Longrightarrow> no_value_error m"
  unfolding no_value_error_def by (metis prod.collapse)

lemma nve_ret [intro!, simp]: "no_value_error (ret x)"
  by (rule no_value_errorI) simp

lemma nve_emit [intro!, simp]: "no_value_error (emit e)"
  by (rule no_value_errorI) simp

lemma nve_fs_read [intro!, simp]: "no_value_error (fs_read f)"
  by (rule no_value_errorI) simp

lemma nve_raise [simp]: "no_value_error (raise err) \<longleftrightarrow> (\<forall>v. err \<noteq> ValueError v)"
  by (auto simp: no_value_error_def raise_def)

lemma nve_fs_op: "(\<And>fs v. f fs \<noteq> Inl (ValueError v)) \<Longrightarrow> no_value_error (fs_op f)"
  by (rule no_value_errorI) (auto simp: fs_op_def split: sum.splits)

lemma nve_write_file [intro!, simp]: "no_value_error (fs_op (write_file p c))"
  by (rule nve_fs_op) (simp add: write_file_def)

lemma nve_mkdir [intro!, simp]: "no_value_error (fs_op (mkdir p))"
  by (rule nve_fs_op) (simp add: mkdir_def)

lemma nve_rmtree [intro!, simp]: "no_value_error (fs_op (rmtree p))"
  by (rule nve_fs_op) (simp add: rmtree_def)

lemma nve_bind [intro!]:
  assumes m: "no_value_error m" and f: "\<And>x. no_value_error (f x)"
  shows "no_value_error (bind m f)"
proof (rule no_value_errorI)
  fix s v s''
  assume "bind m f s = (Inl (ValueError v), s'')"
  then show False
  proof (cases rule: bindE)
    case (fail err)
    with m show ?thesis by (auto dest: no_value_errorD)
  next
    case (ok x s')
    with f show ?thesis by (auto dest: no_value_errorD)
  qed
qed

lemma nve_seq [intro!]: "no_value_error m \<Longrightarrow> no_value_error k \<Longrightarrow> no_value_error (seq m k)"
  unfolding seq_def by (rule nve_bind)

lemma nve_if [intro!]:
  "no_value_error a \<Longrightarrow> no_value_error b \<Longrightarrow> no_value_error (if c then a else b)"
  by simp

lemma nve_make_missing [intro!, simp]: "no_value_error (make_missing qs)"
  by (induction qs) auto

lemma nve_mkdir_parents [intro!, simp]: "no_value_error (mkdir_parents p)"
  unfolding mkdir_parents_def by auto

lemma nve_onnx_load [intro!, simp]: "no_value_error (onnx_load p)"
proof -
  have "no_value_error (case r of Inl err \<Rightarrow> raise err | Inr (Onnx m) \<Rightarrow> ret m
          | Inr other \<Rightarrow> raise (LibraryError ''onnx.load''))"
    if "r = read_file p fs" for r fs
    using that by (auto simp: read_file_def split: option.splits node.splits blob.splits)
  then show ?thesis
    unfolding onnx_load_def bind_def fs_read_def no_value_error_def by simp
qed

lemma nve_library_load [intro!, simp]: "no_value_error (library_load name p)"
  unfolding library_load_def by (auto split: option.splits node.splits blob.splits)

lemma nve_shape_inference [intro!, simp]: "no_value_error (shape_inference L p)"
  unfolding shape_inference_def by (auto split: option.splits)

lemma nve_write_files [intro!, simp]: "no_value_error (write_files d fs)"
  by (induction fs) auto

lemma nve_open_session [intro!, simp]: "no_value_error (open_session L p opts out)"
  unfolding open_session_def by (auto split: option.splits)

lemma nve_copy_file [intro!, simp]: "no_value_error (copy_file src dst)"
proof -
  have "no_value_error (case r of Inl err \<Rightarrow> raise err | Inr c \<Rightarrow> fs_op (write_file dst c))"
    if "r = read_file src fs" for r fs
    using that by (auto simp: read_file_def split: option.splits node.splits)
  then show ?thesis
    unfolding copy_file_def bind_def fs_read_def no_value_error_def by simp
qed

lemma nve_run_calibration_loop [intro!, simp]: "no_value_error (run_calibration_loop L ps)"
proof (induction ps)
  case Nil
  show ?case by simp
next
  case (Cons p ps)
  have "no_value_error (case r of Inl err \<Rightarrow> raise err
          | Inr (Pickle input_data) \<Rightarrow>
              seq (emit (CalibrationRun p))
                (if tidl_run L input_data then run_calibration_loop L ps
                 else raise (LibraryError ''ort_session.run''))
          | Inr other \<Rightarrow> raise UnpicklingError)"
    if "r = read_file p fs" for r fs
    using that Cons
    by (auto simp: read_file_def split: option.splits node.splits blob.splits)
  then show ?case
    unfolding run_calibration_loop.simps bind_def fs_read_def no_value_error_def by simp
qed

lemma nve_run_calibration [intro!, simp]: "no_value_error (run_calibration L d)"
  unfolding run_calibration_def by auto

lemma shape_inference_trace:
  assumes "shape_inference L p s = (r, s')"
  shows "log s' = log s @ (if r = Inr () then [ShapeInferenceStarted p, ShapeInferenceDone p]
                           else [ShapeInferenceStarted p])"
  using assms unfolding shape_inference_def
  by (auto elim!: seqE bindE dest!: silentD [OF silent_library_load] fs_op_log
           split: option.splits)

lemma open_session_trace:
  assumes "open_session L p opts out s = (r, s')"
  shows "log s' = log s @ [SessionOpened opts]"
  using assms unfolding open_session_def
  by (auto elim!: seqE bindE
           dest!: silentD [OF silent_library_load] silentD [OF silent_write_files]
           split: option.splits)

lemma run_calibration_loop_trace:
  "run_calibration_loop L ps s = (r, s') \<Longrightarrow>
     files s' = files s
     \<and> (\<exists>k\<le>length ps. log s' = log s @ map CalibrationRun (take k ps)
            \<and> (r = Inr () \<longrightarrow> k = length ps))"
proof (induction ps arbitrary: s)
  case Nil
  then show ?case by simp
next
  case (Cons p ps)
  show ?case
  proof (cases "read_file p (files s)")
    case (Inl err)
    with Cons.prems show ?thesis
      by (auto simp: bind_def fs_read_def intro: exI [of _ 0])
  next
    case (Inr c)
    show ?thesis
    proof (cases "\<exists>input_data. c = Pickle input_data \<and> tidl_run L input_data")
      case True
      then obtain input_data where c: "c = Pickle input_data" and ok: "tidl_run L input_data"
        by blast
      from Cons.prems Inr c ok
      have rest: "run_calibration_loop L ps (s\<lparr>log := log s @ [CalibrationRun p]\<rparr>) = (r, s')"
        by (simp add: bind_def fs_read_def seq_def emit_def)
      from Cons.IH [OF rest] obtain k where
        k: "k \<le> length ps" "log s' = log s @ CalibrationRun p # map CalibrationRun (take k ps)"
        "r = Inr () \<longrightarrow> k = length ps" and f: "files s' = files s"
        by auto
      then show ?thesis
        by (intro conjI exI [of _ "Suc k"]) auto
    next
      case False
      with Cons.prems Inr show ?thesis
        by (cases c)
           (auto simp: bind_def fs_read_def seq_def emit_def
                 intro: exI [of _ 0] exI [of _ "Suc 0"])
    qed
  qed
qed

lemma run_calibration_trace:
  assumes "run_calibration L d s = (r, s')"
  shows "files s' = files s
     \<and> (\<exists>k\<le>length (glob d ''.pickle'' (files s)).
            log s' = log s @ map CalibrationRun (take k (glob d ''.pickle'' (files s)))
          \<and> (r = Inr () \<longrightarrow> k = length (glob d ''.pickle'' (files s))))"
  using assms unfolding run_calibration_def
  by (auto simp: bind_def fs_read_def dest!: run_calibration_loop_trace)


lemma compile_cases:
  assumes "compile L c a s = (r, s')"
  obtains (prepare_failed) err where
      "prepare_output_dir (ca_output_dir a) (ca_force_overwrite a) s = (Inl err, s')"
      "r = Inl err"
  | (no_directory) 
      "prepare_output_dir (ca_output_dir a) (ca_force_overwrite a) s = (Inr (), s')"
      "\<not> is_dir (files s') (ca_calibration_data_dir a)"
      "r = Inl (ValueError CalibrationDirNotFound)"
  | (no_samples)
      "prepare_output_dir (ca_output_dir a) (ca_force_overwrite a) s = (Inr (), s')"
      "is_dir (files s') (ca_calibration_data_dir a)"
      "glob (ca_calibration_data_dir a) ''.pickle'' (files s') = []"
      "r = Inl (ValueError NoCalibrationInput)"
  | (counted) s1 where
      "prepare_output_dir (ca_output_dir a) (ca_force_overwrite a) s = (Inr (), s1)"
      "is_dir (files s1) (ca_calibration_data_dir a)"
      "glob (ca_calibration_data_dir a) ''.pickle'' (files s1) \<noteq> []"
      "seq (if ca_disable_shape_inference a then ret ()
            else shape_inference L (ca_model_path a))
         (seq (open_session L (ca_model_path a)
                 (dict_update
                    [(''advanced_options:calibration_frames'',
                      OInt (int (length (glob (ca_calibration_data_dir a) ''.pickle'' (files s1)))))]
                    (compiler_options c a))
                 (ca_output_dir a))
            (seq (run_calibration L (ca_calibration_data_dir a))
               (if ca_copy_onnx_to_output_dir a
                then seq (copy_file (ca_model_path a)
                            (ca_output_dir a @ [last (ca_model_path a)]))
                       (emit ModelCopied)
                else ret ()))) s1 = (r, s')"
proof -
  from assms show ?thesis
    unfolding compile_def
  proof (cases rule: seqE)
    case (fail err)
    then show ?thesis by (rule prepare_failed)
  next
    case (ok s1)
    show ?thesis
    proof (cases "is_dir (files s1) (ca_calibration_data_dir a)")
      case False
      with ok have "s' = s1" "r = Inl (ValueError CalibrationDirNotFound)"
        by (auto simp: bind_def fs_read_def)
      with ok False show ?thesis by (auto intro: no_directory)
    next
      case dir: True
      then have ex: "exists (files s1) (ca_calibration_data_dir a)"
        by (simp add: is_dir_def exists_def)
      show ?thesis
      proof (cases "glob (ca_calibration_data_dir a) ''.pickle'' (files s1) = []")
        case True
        with ok dir ex have "s' = s1" "r = Inl (ValueError NoCalibrationInput)"
          by (auto simp: bind_def fs_read_def)
        with ok dir True show ?thesis by (auto intro: no_samples)
      next
        case False
        with ok dir ex show ?thesis
          by (intro counted [of s1]) (auto simp: bind_def fs_read_def)
      qed
    qed
  qed
qed

lemma copy_step_trace:
  assumes "(if b then seq (copy_file src dst) (emit ModelCopied) else ret ()) s = (r, s')"
  shows "\<exists>cp. log s' = log s @ cp \<and> set cp \<subseteq> {ModelCopied}"
  using assms
  by (auto elim!: seqE dest!: silentD [OF silent_copy_file] split: if_splits)

lemma counted_trace:
  assumes "seq (if disable then ret () else shape_inference L mp)
             (seq (open_session L mp opts out)
                (seq (run_calibration L cal)
                   (if cp then seq (copy_file src dst) (emit ModelCopied) else ret ()))) s
           = (r, s')"
  shows "(\<not> disable \<and> log s' = log s @ [ShapeInferenceStarted mp] \<and> (\<exists>err. r = Inl err))
       \<or> (\<exists>ps rest. log s' = log s @ (if disable then [] else [ShapeInferenceStarted mp, ShapeInferenceDone mp])
                @ SessionOpened opts # map CalibrationRun ps @ rest
              \<and> set rest \<subseteq> {ModelCopied})"
  using assms
proof (cases rule: seqE)
  case (fail err)
  then show ?thesis
    by (auto dest!: shape_inference_trace split: if_splits)
next
  case (ok s1)
  then have l1: "log s1 = log s @ (if disable then [] else [ShapeInferenceStarted mp, ShapeInferenceDone mp])"
    by (auto dest!: shape_inference_trace split: if_splits)
  from ok(2) show ?thesis
  proof (cases rule: seqE)
    case (fail err)
    from open_session_trace [OF fail(1)] l1 show ?thesis
      by (intro disjI2 exI [of _ "[]"]) simp
  next
    case (ok s2)
    from open_session_trace [OF ok(1)]
    have l2: "log s2 = log s1 @ [SessionOpened opts]" .
    from ok(2) show ?thesis
    proof (cases rule: seqE)
      case (fail err)
      from run_calibration_trace [OF fail(1)] obtain k where
        "log s' = log s2 @ map CalibrationRun (take k (glob cal ''.pickle'' (files s2)))"
        by blast
      with l1 l2 show ?thesis
        by (intro disjI2 exI [of _ "take k (glob cal ''.pickle'' (files s2))"] exI [of _ "[]"])
           simp
    next
      case (ok s3)
      from run_calibration_trace [OF ok(1)] obtain k where
        l3: "log s3 = log s2 @ map CalibrationRun (take k (glob cal ''.pickle'' (files s2)))"
        by blast
      from copy_step_trace [OF ok(2)] obtain rest where
        "log s' = log s3 @ rest" "set rest \<subseteq> {ModelCopied}"
        by blast
      with l1 l2 l3 show ?thesis
        by (intro disjI2 exI [of _ "take k (glob cal ''.pickle'' (files s2))"] exI [of _ rest])
           simp
    qed
  qed
qed

lemma compile_trace:
  assumes "compile L c a s = (r, s')"
  shows "\<exists>s1 opts w. log s' = log s @ w \<and> worker_trace a opts w
           \<and> (r = Inr () \<longrightarrow> SessionOpened opts \<in> set w)
           \<and> (w \<noteq> [] \<longrightarrow>
                prepare_output_dir (ca_output_dir a) (ca_force_overwrite a) s = (Inr (), s1)
              \<and> opts = dict_update
                    [(''advanced_options:calibration_frames'',
                      OInt (int (length (glob (ca_calibration_data_dir a) ''.pickle'' (files s1)))))]
                    (compiler_options c a))"
  using assms
proof (cases rule: compile_cases)
  case (prepare_failed err)
  then show ?thesis
    by (auto simp: worker_trace_def dest!: silentD [OF silent_prepare_output_dir])
next
  case no_directory
  then show ?thesis
    by (auto simp: worker_trace_def dest!: silentD [OF silent_prepare_output_dir])
next
  case no_samples
  then show ?thesis
    by (auto simp: worker_trace_def dest!: silentD [OF silent_prepare_output_dir])
next
  case (counted s1)
  from silentD [OF silent_prepare_output_dir counted(1)] have l: "log s1 = log s" .
  let ?opts = "dict_update
                    [(''advanced_options:calibration_frames'',
                      OInt (int (length (glob (ca_calibration_data_dir a) ''.pickle'' (files s1)))))]
                    (compiler_options c a)"
  from counted_trace [OF counted(4)] l
  have "\<exists>w. log s' = log s @ w \<and> worker_trace a ?opts w
          \<and> (r = Inr () \<longrightarrow> SessionOpened ?opts \<in> set w)"
    unfolding worker_trace_def by auto
  with counted(1) show ?thesis by blast
qed

lemma run_compilation_trace:
  assumes "run_compilation L a s = (r, s')"
  shows "\<exists>c s1 opts w. log s' = log s @ w \<and> worker_trace a opts w
           \<and> (r = Inr () \<longrightarrow> SessionOpened opts \<in> set w)
           \<and> (w \<noteq> [] \<longrightarrow>
                TICompiler_init L None NO_DEBUG 16 0 = Inr c
              \<and> prepare_output_dir (ca_output_dir a) (ca_force_overwrite a) s = (Inr (), s1)
              \<and> opts = dict_update
                    [(''advanced_options:calibration_frames'',
                      OInt (int (length (glob (ca_calibration_data_dir a) ''.pickle'' (files s1)))))]
                    (compiler_options c a))"
  using assms unfolding run_compilation_def
proof (cases rule: bindE)
  case (fail err)
  then show ?thesis by (auto simp: worker_trace_def)
next
  case (ok c s0)
  then have "s0 = s" and c: "TICompiler_init L None NO_DEBUG 16 0 = Inr c" by auto
  with compile_trace [of L c a s r s'] ok(2) show ?thesis by blast
qed

lemma run_isolated_trace:
  assumes "run_isolated_compilation L a s = (r, s')"
  shows "\<exists>opts w. log s' = log s @ WorkerSpawned a # w @ [WorkerExited] \<and> worker_trace a opts w
           \<and> (r = Inr () \<longrightarrow> SessionOpened opts \<in> set w)"
proof -
  obtain r0 s0 where run: "run_compilation L a (s\<lparr>log := log s @ [WorkerSpawned a]\<rparr>) = (r0, s0)"
    by (cases "run_compilation L a (s\<lparr>log := log s @ [WorkerSpawned a]\<rparr>)")
  with assms have "s' = s0\<lparr>log := log s0 @ [WorkerExited]\<rparr>" "r = r0"
    unfolding run_isolated_compilation_def
    by (auto simp: seq_def bind_def emit_def on_exit_def)
  with run_compilation_trace [OF run] show ?thesis by auto
qed

lemma resolve_calibration_cfg:
  assumes "resolve_calibration L srv calib s = (Inr cfg, s')"
  shows "(calib = None \<and> cfg = basic_cfg) \<or> (\<exists>members. calib = Some (Zip members) \<and> cfg = advanced_cfg)"
  using assms unfolding resolve_calibration_def basic_cfg_def advanced_cfg_def
  by (auto elim!: seq_InrE split: option.splits blob.splits)

lemma make_archive_trace:
  assumes "make_archive srv s = (r, s')"
  shows "\<exists>post. log s' = log s @ post \<and> set post \<subseteq> {Packaged}
           \<and> ((\<exists>path. r = Inr path) \<longrightarrow> post = [Packaged])"
  using assms unfolding make_archive_def
  by (auto elim!: bindE seqE dest!: fs_op_log split: if_splits)

lemma compile_model_trace:
  assumes "compile_model L srv model calib s = (r, s')"
  shows "(new_events s s' = [] \<and> (\<exists>err. r = Inl err))
       \<or> (new_events s s' = [ModelPersisted] \<and> (\<exists>err. r = Inl err))
       \<or> (\<exists>cfg opts w post.
             new_events s s' =
               [ModelPersisted, CalibrationResolved, WorkerSpawned (worker_args srv cfg)]
               @ w @ [WorkerExited] @ post
           \<and> ((calib = None \<and> cfg = basic_cfg)
               \<or> (\<exists>members. calib = Some (Zip members) \<and> cfg = advanced_cfg))
           \<and> worker_trace (worker_args srv cfg) opts w
           \<and> set post \<subseteq> {Packaged}
           \<and> ((\<exists>path. r = Inr path) \<longrightarrow> SessionOpened opts \<in> set w \<and> post = [Packaged]))"
  using assms unfolding compile_model_def
proof (cases rule: bindE)
  case (fail err)
  then have "s' = s" by (cases model) auto
  with fail(2) show ?thesis by (simp add: new_events_def)
next
  case (ok onnx_model s0)
  then have s0: "s0 = s" by (cases model) auto
  from ok(2) show ?thesis
  proof (cases rule: seqE)
    case (fail err)
    with s0 show ?thesis by (auto simp: new_events_def dest: fs_op_log)
  next
    case (ok s1)
    with s0 have l1: "log s1 = log s" by (auto dest: fs_op_log)
    from ok(2) show ?thesis
    proof (cases rule: seqE)
      case (fail err)
      then show ?thesis by simp
    next
      case (ok s2)
      then have l2: "log s2 = log s @ [ModelPersisted]" using l1 by auto
      obtain r3 s3 where res: "resolve_calibration L srv calib s2 = (r3, s3)"
        by (cases "resolve_calibration L srv calib s2")
      from silentD [OF silent_resolve_calibration res] have l3: "log s3 = log s2" .
      show ?thesis
      proof (cases r3)
        case (Inl err)
        with ok(2) res have "s' = s3" "r = Inl (HTTPInternalServerError err)"
          by (auto simp: seq_def bind_def try_except_def raise_def)
        with l2 l3 show ?thesis by (simp add: new_events_def)
      next
        case (Inr cfg)
        obtain r4 s4 where iso:
          "run_isolated_compilation L (worker_args srv cfg)
             (s3\<lparr>log := log s3 @ [CalibrationResolved]\<rparr>) = (r4, s4)"
          by (cases "run_isolated_compilation L (worker_args srv cfg)
             (s3\<lparr>log := log s3 @ [CalibrationResolved]\<rparr>)")
        from run_isolated_trace [OF iso] l2 l3 obtain opts w where
          l4: "log s4 = log s @ [ModelPersisted, CalibrationResolved,
                 WorkerSpawned (worker_args srv cfg)] @ w @ [WorkerExited]"
          and w: "worker_trace (worker_args srv cfg) opts w"
          and so: "r4 = Inr () \<longrightarrow> SessionOpened opts \<in> set w"
          by auto
        from Inr res have cfg: "(calib = None \<and> cfg = basic_cfg)
               \<or> (\<exists>members. calib = Some (Zip members) \<and> cfg = advanced_cfg)"
          by (auto dest: resolve_calibration_cfg)
        show ?thesis
        proof (cases r4)
          case (Inl err)
          with ok(2) res Inr iso have "s' = s4" "r = Inl (HTTPInternalServerError err)"
            by (auto simp: seq_def bind_def try_except_def raise_def emit_def)
          with l4 w cfg show ?thesis
            by (intro disjI2 exI [of _ cfg] exI [of _ opts] exI [of _ w] exI [of _ "[]"])
               (simp add: new_events_def)
        next
          case ok4: (Inr u)
          with ok(2) res Inr iso have "make_archive srv s4 = (r, s')"
            by (auto simp: seq_def bind_def try_except_def raise_def emit_def)
          from make_archive_trace [OF this] obtain post where
            "log s' = log s4 @ post" "set post \<subseteq> {Packaged}"
            "(\<exists>path. r = Inr path) \<longrightarrow> post = [Packaged]"
            by blast
          with l4 w cfg so ok4 show ?thesis
            by (intro disjI2 exI [of _ cfg] exI [of _ opts] exI [of _ w] exI [of _ post])
               (simp add: new_events_def)
        qed
      qed
    qed
  qed
qed

end
